theory Spec2Isabelle
  imports Main "HOL-Library.AList"
begin

section \<open>Python strings\<close>

text \<open>
  A Python \<open>str\<close> is modelled as a \<open>string\<close> whose characters are the code points
  below 256: \<open>length\<close> counts code points, as Python's \<open>len\<close> does, and the character
  classes below are the ones Python's \<open>str\<close> methods and its \<open>re\<close> module (on \<open>str\<close>
  patterns) use on that range. Text with code points from 256 on is outside the model.
\<close>

definition isspace :: "char \<Rightarrow> bool" where
  \<comment> \<open>\<open>str.isspace\<close> and \<open>\s\<close>: TAB..CR, FS..US, space, NEL and the no-break space\<close>
  "isspace c =
     (let n = (of_char c :: nat)
      in (9 \<le> n \<and> n \<le> 13) \<or> (28 \<le> n \<and> n \<le> 32) \<or> n = 133 \<or> n = 160)"

definition isdecimal :: "char \<Rightarrow> bool" where
  \<comment> \<open>\<open>\d\<close>: the decimal digits, which \<open>int()\<close> reads\<close>
  "isdecimal c = (let n = (of_char c :: nat) in 48 \<le> n \<and> n \<le> 57)"

definition isdigit_char :: "char \<Rightarrow> bool" where
  \<comment> \<open>the characters of \<open>str.isdigit\<close> among the code points below 256: a decimal digit
      or a superscript one, two, three\<close>
  "isdigit_char c =
     (let n = (of_char c :: nat) in (48 \<le> n \<and> n \<le> 57) \<or> n = 178 \<or> n = 179 \<or> n = 185)"

definition isalnum :: "char \<Rightarrow> bool" where
  "isalnum c =
     (let n = (of_char c :: nat)
      in (48 \<le> n \<and> n \<le> 57) \<or> (65 \<le> n \<and> n \<le> 90) \<or> (97 \<le> n \<and> n \<le> 122)
         \<or> n = 170 \<or> n = 178 \<or> n = 179 \<or> n = 181 \<or> n = 185 \<or> n = 186
         \<or> (188 \<le> n \<and> n \<le> 190) \<or> (192 \<le> n \<and> n \<le> 214)
         \<or> (216 \<le> n \<and> n \<le> 246) \<or> (248 \<le> n \<and> n \<le> 255))"

definition isword :: "char \<Rightarrow> bool" where
  \<comment> \<open>\<open>\w\<close>\<close>
  "isword c = (isalnum c \<or> c = CHR ''_'')"

definition lower_char :: "char \<Rightarrow> char" where
  "lower_char c =
     (let n = (of_char c :: nat)
      in if (65 \<le> n \<and> n \<le> 90) \<or> (192 \<le> n \<and> n \<le> 222 \<and> n \<noteq> 215)
         then char_of (n + 32) else c)"

definition lower :: "string \<Rightarrow> string" where
  "lower s = map lower_char s"

definition strip :: "string \<Rightarrow> string" where
  "strip s = rev (dropWhile isspace (rev (dropWhile isspace s)))"

definition startswith :: "string \<Rightarrow> string \<Rightarrow> bool" where
  "startswith s p = (take (length p) s = p)"

primrec str_in :: "string \<Rightarrow> string \<Rightarrow> bool" where
  \<comment> \<open>\<open>sub in s\<close>\<close>
  "str_in sub [] = (sub = [])"
| "str_in sub (c # cs) = (startswith (c # cs) sub \<or> str_in sub cs)"

primrec join :: "string \<Rightarrow> string list \<Rightarrow> string" where
  \<comment> \<open>\<open>sep.join(xs)\<close>\<close>
  "join sep [] = []"
| "join sep (x # xs) = (if xs = [] then x else x @ sep @ join sep xs)"

fun split_when :: "(char \<Rightarrow> bool) \<Rightarrow> string \<Rightarrow> string list" where
  \<comment> \<open>\<open>re.split\<close> on a class of single characters: the pieces between them, empty ones kept\<close>
  "split_when sep [] = [[]]"
| "split_when sep (c # cs) =
     (if sep c then [] # split_when sep cs
      else (case split_when sep cs of [] \<Rightarrow> [[c]] | t # ts \<Rightarrow> (c # t) # ts))"

section \<open>The parsed document\<close>

text \<open>
  The tree construction and query layer (\<open>newspaper.parsers\<close>, on lxml) is an external
  collaborator of the extractor. An element is what the extractor reads of an lxml
  element: its tag, its attributes, its own text (\<open>None\<close> when it has none) and the text
  fragments \<open>itertext()\<close> yields. The parser's operations are parameters of every
  extractor function; the document type is left open.
\<close>

record element =
  tag :: string
  attrib :: "(string \<times> string) list"
  elem_text :: "string option"
  itertext :: "string list"

record 'doc parser =
  getElementsByTag :: "'doc \<Rightarrow> string option \<Rightarrow> string option \<Rightarrow> string option \<Rightarrow> element list"
  getText :: "element \<Rightarrow> string"
  getAttribute :: "element \<Rightarrow> string \<Rightarrow> string option"
  css_select :: "'doc \<Rightarrow> string \<Rightarrow> element list"

definition attrib_get :: "element \<Rightarrow> string \<Rightarrow> string option" where
  \<comment> \<open>\<open>el.attrib.get(name)\<close>\<close>
  "attrib_get el name = map_of (attrib el) name"

section \<open>Authors\<close>

text \<open>
  The tables \<open>AUTHOR_ATTRS\<close>, \<open>AUTHOR_VALS\<close> and \<open>AUTHOR_STOP_WORDS\<close> of
  \<open>newspaper.extractors.defines\<close> are parameters.
\<close>

record author_defines =
  AUTHOR_ATTRS :: "string list"
  AUTHOR_VALS :: "string list"
  AUTHOR_STOP_WORDS :: "string list"

definition contains_digits :: "string \<Rightarrow> bool" where
  "contains_digits d = list_ex isdecimal d"

definition uniqify_key :: "string \<Rightarrow> string" where
  \<comment> \<open>\<open>item.lower().strip()\<close>\<close>
  "uniqify_key item = strip (lower item)"

definition uniqify_seen :: "string list \<Rightarrow> (string \<times> string) list" where
  \<comment> \<open>the ordered dictionary \<open>seen\<close> after the loop: a key keeps the place of its first
      assignment, and a later assignment to it replaces the value\<close>
  "uniqify_seen lst =
     foldl (\<lambda>seen item. AList.update (uniqify_key item) (strip item) seen) [] lst"

definition uniqify_list :: "string list \<Rightarrow> string list" where
  "uniqify_list lst = map snd (filter (\<lambda>(item, v). item \<noteq> []) (uniqify_seen lst))"

fun tag_close :: "string \<Rightarrow> string option" where
  \<comment> \<open>the rest of the lazy \<open>[^<]+?>\<close>: what follows the first closing bracket, when
      no opening bracket comes before it\<close>
  "tag_close [] = None"
| "tag_close (c # cs) =
     (if c = CHR ''>'' then Some cs else if c = CHR ''<'' then None else tag_close cs)"

lemma tag_close_length: "tag_close cs = Some r \<Longrightarrow> length r < length cs"
  by (induction cs) (auto split: if_splits)

function remove_tags :: "string \<Rightarrow> string" where
  \<comment> \<open>\<open>re.sub("<[^<]+?>", "", s)\<close>\<close>
  "remove_tags [] = []"
| "remove_tags (c # cs) =
     (if c = CHR ''<'' then
        (case cs of
           [] \<Rightarrow> [c]
         | d # ds \<Rightarrow>
             if d = CHR ''<'' then c # remove_tags cs
             else (case tag_close ds of
                     Some r \<Rightarrow> remove_tags r
                   | None \<Rightarrow> c # remove_tags cs))
      else c # remove_tags cs)"
  by pat_completeness auto
termination
  by (relation "measure length") (auto dest: tag_close_length)

definition blank_controls :: "string \<Rightarrow> string" where
  \<comment> \<open>\<open>re.sub("[\n\t\r\xa0]", " ", s)\<close>\<close>
  "blank_controls s =
     map (\<lambda>c. if c \<in> set [CHR 0x0A, CHR 0x09, CHR 0x0D, CHR 0xA0] then CHR '' '' else c) s"

definition by_here :: "string \<Rightarrow> bool" where
  \<comment> \<open>\<open>[bB][yY][\:\s]\<close> matches at the start of the string\<close>
  "by_here s =
     (case s of
        a # b # c # _ \<Rightarrow>
          (a = CHR ''b'' \<or> a = CHR ''B'') \<and> (b = CHR ''y'' \<or> b = CHR ''Y'')
          \<and> (c = CHR '':'' \<or> isspace c)
      | _ \<Rightarrow> False)"

definition from_here :: "string \<Rightarrow> bool" where
  \<comment> \<open>\<open>[fF]rom[\:\s]\<close> matches at the start of the string\<close>
  "from_here s =
     (case s of
        a # b # c # d # e # _ \<Rightarrow>
          (a = CHR ''f'' \<or> a = CHR ''F'') \<and> b = CHR ''r'' \<and> c = CHR ''o'' \<and> d = CHR ''m''
          \<and> (e = CHR '':'' \<or> isspace e)
      | _ \<Rightarrow> False)"

fun remove_by :: "string \<Rightarrow> string" where
  \<comment> \<open>\<open>re.sub(r"[bB][yY][\:\s]|[fF]rom[\:\s]", "", s)\<close>\<close>
  "remove_by [] = []"
| "remove_by (c # cs) =
     (if by_here (c # cs) then remove_by (drop 2 cs)
      else if from_here (c # cs) then remove_by (drop 4 cs)
      else c # remove_by cs)"

definition name_tokens :: "string \<Rightarrow> string list" where
  \<comment> \<open>\<open>re.split(r"[^\w'\-\.]", s)\<close>, each piece stripped\<close>
  "name_tokens s =
     map strip
       (split_when (\<lambda>c. \<not> (isword c \<or> c = CHR 0x27 \<or> c = CHR ''-'' \<or> c = CHR ''.'')) s)"

definition delimiters :: "string list" where
  "delimiters = [''and'', '','', '''']"

definition byline_step :: "string list \<times> string list \<Rightarrow> string \<Rightarrow> string list \<times> string list" where
  \<comment> \<open>one round of the loop over the tokens, on \<open>(_authors, curname)\<close>\<close>
  "byline_step st token =
     (case st of (authors, curname) \<Rightarrow>
        if token \<in> set delimiters then
          (if length curname > 0 then (authors @ [join '' '' curname], [])
           else (authors, curname))
        else if \<not> contains_digits token then (authors, curname @ [token])
        else (authors, curname))"

definition parse_byline :: "string \<Rightarrow> string list" where
  "parse_byline search_str =
     (let s1 = remove_tags search_str;
          s2 = blank_controls s1;
          s3 = remove_by s2;
          s4 = strip s3;
          (authors, curname) = foldl byline_step ([], []) (name_tokens s4);
          valid_name = (length curname \<ge> 2)
      in if valid_name then authors @ [join '' '' curname] else authors)"

definition boundary :: "char option \<Rightarrow> char option \<Rightarrow> bool" where
  \<comment> \<open>\<open>\b\<close> between two neighbours, \<open>None\<close> at an end of the string\<close>
  "boundary l r =
     ((case l of None \<Rightarrow> False | Some c \<Rightarrow> isword c)
      \<noteq> (case r of None \<Rightarrow> False | Some c \<Rightarrow> isword c))"

definition stopword_here :: "char option \<Rightarrow> string \<Rightarrow> string \<Rightarrow> bool" where
  \<comment> \<open>\<open>\b\<close>, the word whatever its case, \<open>\b\<close>: at the start of \<open>s\<close>, after \<open>prev\<close>\<close>
  "stopword_here prev s w =
     (w \<noteq> [] \<and> length w \<le> length s \<and> lower (take (length w) s) = lower w
      \<and> boundary prev (Some (hd s))
      \<and> boundary (Some (last (take (length w) s)))
           (case drop (length w) s of [] \<Rightarrow> None | c # _ \<Rightarrow> Some c))"

fun remove_stopwords :: "string list \<Rightarrow> char option \<Rightarrow> nat \<Rightarrow> string \<Rightarrow> string" where
  \<comment> \<open>\<open>re.sub(author_stopwords, "", s)\<close> for the pattern \<open>\b(w1|w2|...)\b\<close> compiled
      with \<open>re.IGNORECASE\<close> from the escaped stop words, all of them non-empty. The first
      word of the table that matches at a position is removed; \<open>skip\<close> counts the characters
      of a match still to drop.\<close>
  "remove_stopwords ws prev skip [] = []"
| "remove_stopwords ws prev skip (c # cs) =
     (if skip > 0 then remove_stopwords ws (Some c) (skip - 1) cs
      else (case find (stopword_here prev (c # cs)) ws of
              Some w \<Rightarrow> remove_stopwords ws (Some c) (length w - 1) cs
            | None \<Rightarrow> c # remove_stopwords ws (Some c) 0 cs))"

definition author_content :: "element \<Rightarrow> string" where
  \<comment> \<open>the \<open>content\<close> of one match: the \<open>content\<close> attribute of a meta tag, the joined
      text fragments of another element\<close>
  "author_content m =
     (if tag m = ''meta'' then
        (case attrib_get m ''content'' of None \<Rightarrow> [] | Some c \<Rightarrow> c)
      else join '' '' (itertext m))"

definition author_candidates :: "'doc parser \<Rightarrow> author_defines \<Rightarrow> 'doc \<Rightarrow> string list" where
  \<comment> \<open>the list \<open>authors\<close> of \<open>get_authors\<close> before \<open>uniqify_list\<close>\<close>
  "author_candidates P D doc =
     (let matches =
            concat (map (\<lambda>a. concat (map (\<lambda>v. getElementsByTag P doc None (Some a) (Some v))
                                        (AUTHOR_VALS D)))
                        (AUTHOR_ATTRS D));
          authors =
            concat (map (\<lambda>m. let content = author_content m
                              in if length content > 0 then parse_byline content else [])
                        matches)
      in map (remove_stopwords (AUTHOR_STOP_WORDS D) None 0) authors)"

definition get_authors :: "'doc parser \<Rightarrow> author_defines \<Rightarrow> 'doc \<Rightarrow> string list" where
  "get_authors P D doc = uniqify_list (author_candidates P D doc)"

section \<open>The nested metadata\<close>

datatype py_error = ValueError | TypeError | AttributeError | IndexError

text \<open>
  A value of the metadata dictionary is a string, an integer or a dictionary again. A
  dictionary is an association list in insertion order: assigning to a key that is there
  keeps its place, a new key goes to the end (\<open>AList.update\<close>).
\<close>

datatype meta_value = MStr string | MInt int | MDict "(string \<times> meta_value) list"

definition py_or :: "string option \<Rightarrow> string option \<Rightarrow> string option" where
  \<comment> \<open>\<open>a or b\<close> on results of \<open>attrib.get\<close>: \<open>None\<close> and the empty string are false\<close>
  "py_or a b = (case a of None \<Rightarrow> b | Some s \<Rightarrow> if s \<noteq> [] then Some s else b)"

definition meta_raw_key :: "element \<Rightarrow> string option" where
  "meta_raw_key prop = py_or (attrib_get prop ''property'') (attrib_get prop ''name'')"

definition meta_raw_value :: "element \<Rightarrow> string option" where
  "meta_raw_value prop = py_or (attrib_get prop ''content'') (attrib_get prop ''value'')"

definition meta_key_value :: "element \<Rightarrow> (string \<times> string) option" where
  \<comment> \<open>\<open>None\<close> when the loop goes on to the next tag at \<open>if not key or not value\<close>;
      otherwise the key and the value, both stripped\<close>
  "meta_key_value prop =
     (case (meta_raw_key prop, meta_raw_value prop) of
        (Some k, Some v) \<Rightarrow> if k = [] \<or> v = [] then None else Some (strip k, strip v)
      | _ \<Rightarrow> None)"

text \<open>
  The two built-ins that \<open>get_meta_data\<close> applies to a value are parameters:
  \<open>str.isdigit\<close>, which the interpreter decides from the Unicode database for the
  digits of every script, and \<open>int\<close>, which raises \<open>ValueError\<close> on a text it does not
  read as a number (a superscript digit, or a literal of more digits than the
  interpreter's limit, 4300 unless it is configured otherwise).
\<close>

record py_str =
  str_isdigit :: "string \<Rightarrow> bool"
  str_to_int :: "string \<Rightarrow> py_error + int"

definition convert_value :: "py_str \<Rightarrow> string \<Rightarrow> py_error + meta_value" where
  \<comment> \<open>\<open>if value.isdigit(): value = int(value)\<close>\<close>
  "convert_value B v =
     (if str_isdigit B v
      then (case str_to_int B v of Inl e \<Rightarrow> Inl e | Inr n \<Rightarrow> Inr (MInt n))
      else Inr (MStr v))"

fun truthy :: "meta_value \<Rightarrow> bool" where
  "truthy (MStr s) = (s \<noteq> [])"
| "truthy (MInt n) = (n \<noteq> 0)"
| "truthy (MDict d) = (d \<noteq> [])"

fun is_scalar :: "meta_value \<Rightarrow> bool" where
  \<comment> \<open>\<open>isinstance(x, str) or isinstance(x, int)\<close>\<close>
  "is_scalar (MDict d) = False"
| "is_scalar v = True"

fun insert_path ::
  "string list \<Rightarrow> meta_value \<Rightarrow> (string \<times> meta_value) list \<Rightarrow> (string \<times> meta_value) list" where
  \<comment> \<open>the loop \<open>for idx, part in enumerate(key)\<close> on the dictionary \<open>ref\<close>, which the
      source updates in place: the result is \<open>ref\<close> after the loop\<close>
  "insert_path [] v ref = ref"
| "insert_path [part] v ref = AList.update part v ref"
| "insert_path (part # ps) v ref =
     (let sub = (case map_of ref part of
                   None \<Rightarrow> []
                 | Some x \<Rightarrow>
                     if \<not> truthy x then []
                     else (case x of MDict d \<Rightarrow> d | _ \<Rightarrow> [(''identifier'', x)]))
      in AList.update part (MDict (insert_path ps v sub)) ref)"

definition store ::
  "(string \<times> meta_value) list \<Rightarrow> string \<Rightarrow> meta_value \<Rightarrow> (string \<times> meta_value) list" where
  \<comment> \<open>the body of the loop of \<open>get_meta_data\<close> from \<open>if ":" not in key\<close> on; \<open>data\<close> is a
      \<open>defaultdict(dict)\<close>, so reading a missing \<open>key_head\<close> enters an empty dictionary\<close>
  "store data key v =
     (if CHR '':'' \<notin> set key then AList.update key v data
      else
        (let parts = split_when (\<lambda>c. c = CHR '':'') key;
             key_head = hd parts;
             ref = (case map_of data key_head of
                      None \<Rightarrow> []
                    | Some (MDict d) \<Rightarrow> d
                    | Some x \<Rightarrow> [(key_head, x)])
         in AList.update key_head (MDict (insert_path (tl parts) v ref)) data))"

definition meta_step ::
  "py_str \<Rightarrow> (string \<times> meta_value) list \<Rightarrow> element
   \<Rightarrow> py_error + (string \<times> meta_value) list" where
  "meta_step B data prop =
     (case meta_key_value prop of
        None \<Rightarrow> Inr data
      | Some (key, v) \<Rightarrow>
          (case convert_value B v of
             Inl e \<Rightarrow> Inl e
           | Inr mv \<Rightarrow> Inr (store data key mv)))"

fun meta_loop ::
  "py_str \<Rightarrow> (string \<times> meta_value) list \<Rightarrow> element list
   \<Rightarrow> py_error + (string \<times> meta_value) list" where
  "meta_loop B data [] = Inr data"
| "meta_loop B data (prop # props) =
     (case meta_step B data prop of Inl e \<Rightarrow> Inl e | Inr data' \<Rightarrow> meta_loop B data' props)"

definition get_meta_data ::
  "py_str \<Rightarrow> 'doc parser \<Rightarrow> 'doc \<Rightarrow> py_error + (string \<times> meta_value) list" where
  "get_meta_data B P doc = meta_loop B [] (css_select P doc ''meta'')"

fun lookup_path :: "string list \<Rightarrow> meta_value \<Rightarrow> meta_value option" where
  \<comment> \<open>reading the result: \<open>data[p1][p2]...\<close>, \<open>None\<close> where a key is missing or a scalar
      stands in the way\<close>
  "lookup_path [] v = Some v"
| "lookup_path (p # ps) (MDict d) =
     (case map_of d p of None \<Rightarrow> None | Some x \<Rightarrow> lookup_path ps x)"
| "lookup_path (p # ps) v = None"

fun stripped_leaves :: "meta_value \<Rightarrow> bool" where
  \<comment> \<open>every string in the value is its own \<open>strip()\<close>\<close>
  "stripped_leaves (MStr s) = (strip s = s)"
| "stripped_leaves (MInt n) = True"
| "stripped_leaves (MDict d) = list_all (\<lambda>kv. stripped_leaves (snd kv)) d"

section \<open>The title\<close>

text \<open>
  The splitters and the replacement tables of \<open>newspaper.extractors.defines\<close> are
  parameters: a splitter by its \<open>split\<close>, a table by its \<open>replaceAll\<close>.
\<close>

record title_defines =
  PIPE_SPLITTER :: "string \<Rightarrow> string list"
  DASH_SPLITTER :: "string \<Rightarrow> string list"
  UNDERSCORE_SPLITTER :: "string \<Rightarrow> string list"
  SLASH_SPLITTER :: "string \<Rightarrow> string list"
  ARROWS_SPLITTER :: "string \<Rightarrow> string list"
  MOTLEY_REPLACEMENT :: "string \<Rightarrow> string"
  TITLE_REPLACEMENTS :: "string \<Rightarrow> string"

definition then_do :: "'e + 'a \<Rightarrow> ('a \<Rightarrow> 'e + 'b) \<Rightarrow> 'e + 'b" where
  \<comment> \<open>go on with a result, stop at an exception\<close>
  "then_do r f = (case r of Inl e \<Rightarrow> Inl e | Inr x \<Rightarrow> f x)"

definition split_ws :: "string \<Rightarrow> string list" where
  \<comment> \<open>\<open>s.split()\<close>: the pieces between runs of whitespace\<close>
  "split_ws s = filter (\<lambda>w. w \<noteq> []) (split_when isspace s)"

definition title_filter :: "string \<Rightarrow> string" where
  \<comment> \<open>\<open>filter_regex.sub("", s)\<close> for \<open>[^\u4e00-\u9fa5a-zA-Z0-9\ ]\<close>, and for the same class
      without the CJK range in \<open>split_title\<close>: on code points below 256 both keep the
      ASCII letters and digits and the space\<close>
  "title_filter s =
     filter (\<lambda>c. let n = (of_char c :: nat)
                  in (48 \<le> n \<and> n \<le> 57) \<or> (65 \<le> n \<and> n \<le> 90) \<or> (97 \<le> n \<and> n \<le> 122)
                     \<or> c = CHR '' '') s"

definition attr_selector :: "string \<Rightarrow> string \<Rightarrow> string \<Rightarrow> string" where
  \<comment> \<open>the selector text \<open>tag[attr="value"]\<close>, with its double quotes\<close>
  "attr_selector t a v = t @ ''['' @ a @ ''='' @ [CHR 0x22] @ v @ [CHR 0x22] @ '']''"

definition get_meta_content :: "'doc parser \<Rightarrow> 'doc \<Rightarrow> string \<Rightarrow> string" where
  "get_meta_content P doc metaname =
     (let content = (case css_select P doc metaname of
                       [] \<Rightarrow> None
                     | m # _ \<Rightarrow> getAttribute P m ''content'')
      in case content of None \<Rightarrow> [] | Some c \<Rightarrow> if c \<noteq> [] then strip c else [])"

definition hint_in_piece :: "string \<Rightarrow> string \<Rightarrow> bool" where
  \<comment> \<open>\<open>hint and hint in filter_regex.sub("", current).lower()\<close>\<close>
  "hint_in_piece hint current = (hint \<noteq> [] \<and> str_in hint (lower (title_filter current)))"

fun largest_piece :: "string \<Rightarrow> string list \<Rightarrow> nat \<Rightarrow> nat \<Rightarrow> nat \<Rightarrow> nat" where
  \<comment> \<open>the loop of \<open>split_title\<close> from piece \<open>i\<close> on, with \<open>large_text_length\<close> and
      \<open>large_text_index\<close> so far: the value of \<open>large_text_index\<close> after the loop\<close>
  "largest_piece hint [] i large_text_length large_text_index = large_text_index"
| "largest_piece hint (title_piece # rest) i large_text_length large_text_index =
     (let current = strip title_piece
      in if hint_in_piece hint current then i
         else if length current > large_text_length
              then largest_piece hint rest (i + 1) (length current) i
              else largest_piece hint rest (i + 1) large_text_length large_text_index)"

definition split_title ::
  "title_defines \<Rightarrow> string \<Rightarrow> (string \<Rightarrow> string list) \<Rightarrow> string \<Rightarrow> py_error + string" where
  \<comment> \<open>\<open>title_pieces[large_text_index]\<close> raises \<open>IndexError\<close> on an empty list of pieces\<close>
  "split_title D title splitter hint0 =
     (let title_pieces = splitter title;
          hint = (if hint0 \<noteq> [] then lower (title_filter hint0) else hint0);
          large_text_index = largest_piece hint title_pieces 0 0 0
      in if large_text_index < length title_pieces
         then Inr (strip (TITLE_REPLACEMENTS D (title_pieces ! large_text_index)))
         else Inl IndexError)"

definition split_with ::
  "title_defines \<Rightarrow> string \<Rightarrow> (string \<Rightarrow> string list) \<Rightarrow> string \<Rightarrow> string \<times> bool
   \<Rightarrow> py_error + string \<times> bool" where
  \<comment> \<open>\<open>if not used_delimeter and delim in title_text: ...\<close> on
      \<open>(title_text, used_delimeter)\<close>\<close>
  "split_with D delim splitter hint st =
     (case st of (title_text, used_delimeter) \<Rightarrow>
        if \<not> used_delimeter \<and> str_in delim title_text
        then then_do (split_title D title_text splitter hint) (\<lambda>t. Inr (t, True))
        else Inr st)"

definition longest_h1 :: "string list \<Rightarrow> string" where
  \<comment> \<open>\<open>title_text_h1\<close> from the texts of the \<open>h1\<close> elements: the first of the longest
      ones (the sort is stable), emptied when it splits at single spaces into two pieces
      or fewer, its whitespace collapsed\<close>
  "longest_h1 title_text_h1_list =
     (case sort_key (\<lambda>t. - int (length t)) title_text_h1_list of
        [] \<Rightarrow> []
      | t # _ \<Rightarrow>
          let t1 = (if length (split_when (\<lambda>c. c = CHR '' '') t) \<le> 2 then [] else t)
          in join '' '' (split_ws t1))"

definition get_title :: "'doc parser \<Rightarrow> title_defines \<Rightarrow> 'doc \<Rightarrow> py_error + string" where
  "get_title P D doc =
     (case getElementsByTag P doc (Some ''title'') None None of
        [] \<Rightarrow> Inr []
      | title_element # _ \<Rightarrow>
          let title_text = getText P title_element;
              title_text_h1 =
                longest_h1 (map (getText P) (getElementsByTag P doc (Some ''h1'') None None));
              fb1 = get_meta_content P doc (attr_selector ''meta'' ''property'' ''og:title'');
              title_text_fb =
                (if fb1 \<noteq> [] then fb1 else get_meta_content P doc (attr_selector ''meta'' ''name'' ''og:title''));
              filter_title_text = lower (title_filter title_text);
              filter_title_text_h1 = lower (title_filter title_text_h1);
              filter_title_text_fb = lower (title_filter title_text_fb);
              st0 =
                (if title_text_h1 = title_text then (title_text, True)
                 else if filter_title_text_h1 \<noteq> [] \<and> filter_title_text_h1 = filter_title_text_fb
                 then (title_text_h1, True)
                 else if filter_title_text_h1 \<noteq> []
                         \<and> str_in filter_title_text_h1 filter_title_text
                         \<and> filter_title_text_fb \<noteq> []
                         \<and> str_in filter_title_text_fb filter_title_text
                         \<and> length title_text_h1 > length title_text_fb
                 then (title_text_h1, True)
                 else if filter_title_text_fb \<noteq> []
                         \<and> filter_title_text_fb \<noteq> filter_title_text
                         \<and> startswith filter_title_text filter_title_text_fb
                 then (title_text_fb, True)
                 else (title_text, False))
          in then_do (split_with D ''|'' (PIPE_SPLITTER D) title_text_h1 st0) (\<lambda>st1.
             then_do (split_with D ''-'' (DASH_SPLITTER D) title_text_h1 st1) (\<lambda>st2.
             then_do (split_with D ''_'' (UNDERSCORE_SPLITTER D) title_text_h1 st2) (\<lambda>st3.
             then_do (split_with D ''/'' (SLASH_SPLITTER D) title_text_h1 st3) (\<lambda>st4.
             then_do (split_with D [CHR '' '', CHR 0xBB, CHR '' ''] (ARROWS_SPLITTER D)
                        title_text_h1 st4) (\<lambda>st5.
               let title = MOTLEY_REPLACEMENT D (fst st5);
                   filter_title = lower (title_filter title)
               in Inr (if filter_title_text_h1 = filter_title then title_text_h1
                       else title)))))))"

section \<open>The canonical link\<close>

text \<open>
  \<open>urlparse\<close> and \<open>urlunparse\<close> belong to Python's standard library and are parameters.
  Of a parsed URL the extractor reads the scheme, the host name (\<open>None\<close> when there is
  none) and the path; it calls \<open>urlunparse\<close> with a scheme, a host name and a path, the
  other three components empty.
\<close>

record parsed_url =
  scheme :: string
  hostname :: "string option"
  path :: string

record url_lib =
  urlparse :: "string \<Rightarrow> parsed_url"
  urlunparse :: "string \<Rightarrow> string option \<Rightarrow> string \<Rightarrow> string"

text \<open>
  The pattern of \<open>get_canonical_link\<close> is the text \<open>.*HOST(?=/)/(.*)\<close> with the
  article's host name put in as it is, not escaped: a dot of the host name matches any
  character but the newline. The model reads every other character of the host name as
  itself, which is what \<open>re\<close> does for letters, digits, hyphens and underscores; a host
  name with another metacharacter of \<open>re\<close> is outside the model.
\<close>

fun pattern_here :: "string \<Rightarrow> string \<Rightarrow> string option" where
  \<comment> \<open>the host name, as a pattern, matches at the start of the text: what follows it\<close>
  "pattern_here [] s = Some s"
| "pattern_here (p # ps) [] = None"
| "pattern_here (p # ps) (c # cs) =
     (if (if p = CHR ''.'' then c \<noteq> CHR 0x0A else p = c) then pattern_here ps cs else None)"

definition host_here :: "string \<Rightarrow> string \<Rightarrow> string option" where
  \<comment> \<open>\<open>HOST(?=/)/(.*)\<close> matches at the start of the text: group 1, which ends before
      the first newline\<close>
  "host_here host s =
     (case pattern_here host s of
        Some (c # rest) \<Rightarrow>
          if c = CHR ''/'' then Some (takeWhile (\<lambda>x. x \<noteq> CHR 0x0A) rest) else None
      | _ \<Rightarrow> None)"

fun strip_hostname_in_meta_path :: "string \<Rightarrow> string \<Rightarrow> string option" where
  \<comment> \<open>\<open>re.match(".*HOST(?=/)/(.*)", s)\<close>: group 1 of the match, \<open>None\<close> when there is
      none. The leading \<open>.*\<close> is greedy and does not cross a newline, so the match found
      is the last one that starts on the first line.\<close>
  "strip_hostname_in_meta_path host [] = host_here host []"
| "strip_hostname_in_meta_path host (c # cs) =
     (if c \<noteq> CHR 0x0A then
        (case strip_hostname_in_meta_path host cs of
           Some g \<Rightarrow> Some g
         | None \<Rightarrow> host_here host (c # cs))
      else host_here host (c # cs))"

definition chosen_meta_url :: "'doc parser \<Rightarrow> 'doc \<Rightarrow> string" where
  \<comment> \<open>\<open>canonical or og_url or ""\<close>\<close>
  "chosen_meta_url P doc =
     (let links = getElementsByTag P doc (Some ''link'') (Some ''rel'') (Some ''canonical'');
          canonical = (case links of [] \<Rightarrow> Some [] | l # _ \<Rightarrow> getAttribute P l ''href'');
          og_url = get_meta_content P doc (attr_selector ''meta'' ''property'' ''og:url'')
      in case py_or canonical (Some og_url) of None \<Rightarrow> [] | Some u \<Rightarrow> u)"

definition get_canonical_link :: "'doc parser \<Rightarrow> url_lib \<Rightarrow> string \<Rightarrow> 'doc \<Rightarrow> string" where
  "get_canonical_link P U article_url doc =
     (let meta_url = chosen_meta_url P doc
      in if meta_url \<noteq> [] then
           (let meta_url1 = strip meta_url;
                parsed_meta_url = urlparse U meta_url1
            in if hostname parsed_meta_url = None \<or> hostname parsed_meta_url = Some [] then
                 (let parsed_article_url = urlparse U article_url;
                      host = (case hostname parsed_article_url of
                                None \<Rightarrow> ''None'' | Some h \<Rightarrow> h);
                      true_path =
                        (case strip_hostname_in_meta_path host (path parsed_meta_url) of
                           Some g \<Rightarrow> g
                         | None \<Rightarrow> path parsed_meta_url)
                  in urlunparse U (scheme parsed_article_url) (hostname parsed_article_url)
                       true_path)
               else meta_url1)
         else meta_url)"

section \<open>The publishing date\<close>

text \<open>
  What \<open>get_publishing_date\<close> takes from outside the two source files is a parameter:
  the search for \<open>urls.STRICT_DATE_REGEX\<close> in a text (the matched text, if any), the
  date parser of \<open>dateutil\<close> (\<open>None\<close> where it raises one of the four exceptions
  \<open>parse_date_str\<close> catches), \<open>json.loads\<close> (\<open>None\<close> where it raises), the table
  \<open>PUBLISH_DATE_TAGS\<close>, the current date and the date of a parsed datetime, both as a
  number of days. The type of datetimes is left open.
\<close>

datatype json =
  JNull | JBool bool | JNum string | JStr string | JArr "json list"
  | JObj "(string \<times> json) list"

record known_meta_tag =
  kt_attribute :: string
  kt_value :: string
  kt_content :: string

record 'dt date_env =
  strict_date_search :: "string \<Rightarrow> string option"
  date_parser :: "string \<Rightarrow> 'dt option"
  json_loads :: "string \<Rightarrow> json option"
  PUBLISH_DATE_TAGS :: "known_meta_tag list"
  today :: int
  date_of :: "'dt \<Rightarrow> int"

definition parse_date_str :: "'dt date_env \<Rightarrow> string option \<Rightarrow> 'dt option" where
  "parse_date_str E date_str =
     (case date_str of None \<Rightarrow> None | Some s \<Rightarrow> if s \<noteq> [] then date_parser E s else None)"

definition url_matches :: "'dt date_env \<Rightarrow> string \<Rightarrow> ('dt \<times> int) list" where
  "url_matches E url =
     (case strict_date_search E url of
        None \<Rightarrow> []
      | Some date_str \<Rightarrow>
          (case parse_date_str E (Some date_str) of
             None \<Rightarrow> []
           | Some datetime_obj \<Rightarrow> [(datetime_obj, 10)]))"

definition graph_of :: "json \<Rightarrow> py_error + json" where
  \<comment> \<open>\<open>schema_json.get("@graph", [])\<close>: only a dictionary has \<open>get\<close>\<close>
  "graph_of schema_json =
     (case schema_json of
        JObj kvs \<Rightarrow> Inr (case map_of kvs ''@graph'' of None \<Rightarrow> JArr [] | Some g \<Rightarrow> g)
      | _ \<Rightarrow> Inl AttributeError)"

definition iterate :: "json \<Rightarrow> py_error + json list" where
  \<comment> \<open>\<open>for item in g\<close>: the elements of a list, the keys of a dictionary, the characters
      of a string; nothing else can be iterated\<close>
  "iterate g =
     (case g of
        JArr xs \<Rightarrow> Inr xs
      | JObj kvs \<Rightarrow> Inr (map (\<lambda>kv. JStr (fst kv)) kvs)
      | JStr s \<Rightarrow> Inr (map (\<lambda>c. JStr [c]) s)
      | _ \<Rightarrow> Inl TypeError)"

definition item_date :: "'dt date_env \<Rightarrow> json \<Rightarrow> py_error + ('dt \<times> int) list" where
  \<comment> \<open>one round of \<open>for item in g\<close>; a \<open>datePublished\<close> that is not a string makes the
      date parser raise \<open>TypeError\<close>, which \<open>parse_date_str\<close> catches\<close>
  "item_date E item =
     (case item of
        JObj kvs \<Rightarrow>
          (case map_of kvs ''datePublished'' of
             Some (JStr date_str) \<Rightarrow>
               (case parse_date_str E (Some date_str) of
                  None \<Rightarrow> Inr []
                | Some datetime_obj \<Rightarrow> Inr [(datetime_obj, 10)])
           | _ \<Rightarrow> Inr [])
      | _ \<Rightarrow> Inl AttributeError)"

fun graph_dates :: "'dt date_env \<Rightarrow> json list \<Rightarrow> py_error + ('dt \<times> int) list" where
  "graph_dates E [] = Inr []"
| "graph_dates E (item # items) =
     then_do (item_date E item) (\<lambda>ms. then_do (graph_dates E items) (\<lambda>ms'. Inr (ms @ ms')))"

definition yoast_dates :: "'dt date_env \<Rightarrow> element \<Rightarrow> py_error + ('dt \<times> int) list" where
  \<comment> \<open>a script of the class \<open>yoast-schema-graph\<close>: \<open>json.loads\<close> raises on a script
      without text; a script that does not load is passed over\<close>
  "yoast_dates E script_tag =
     (case (case elem_text script_tag of None \<Rightarrow> None | Some t \<Rightarrow> json_loads E t) of
        None \<Rightarrow> Inr []
      | Some schema_json \<Rightarrow>
          then_do (graph_of schema_json) (\<lambda>g.
          then_do (iterate g) (\<lambda>items. graph_dates E items)))"

definition is_quote :: "char \<Rightarrow> bool" where
  "is_quote c = (c = CHR 0x22 \<or> c = CHR 0x27)"

definition skip_space :: "string \<Rightarrow> string" where
  \<comment> \<open>\<open>\s?\<close> before a character that is no whitespace\<close>
  "skip_space s = (case s of [] \<Rightarrow> [] | c # cs \<Rightarrow> if isspace c then cs else s)"

definition date_published_here :: "string \<Rightarrow> string option" where
  \<comment> \<open>the pattern \<open>["']datePublished["']\s?:\s?["']([^"']+)["']\<close> matches at the start
      of the text: group 1\<close>
  "date_published_here s =
     (case s of
        [] \<Rightarrow> None
      | q # s1 \<Rightarrow>
          if is_quote q \<and> startswith s1 ''datePublished'' then
            (case drop 13 s1 of
               [] \<Rightarrow> None
             | q2 # s2 \<Rightarrow>
                 if is_quote q2 then
                   (case skip_space s2 of
                      [] \<Rightarrow> None
                    | colon # s3 \<Rightarrow>
                        if colon = CHR '':'' then
                          (case skip_space s3 of
                             [] \<Rightarrow> None
                           | q3 # s4 \<Rightarrow>
                               if is_quote q3 \<and> takeWhile (\<lambda>c. \<not> is_quote c) s4 \<noteq> []
                                  \<and> dropWhile (\<lambda>c. \<not> is_quote c) s4 \<noteq> []
                               then Some (takeWhile (\<lambda>c. \<not> is_quote c) s4)
                               else None)
                        else None)
                 else None)
          else None)"

fun search_date_published :: "string \<Rightarrow> string option" where
  \<comment> \<open>\<open>re.search\<close> of that pattern: group 1 of the leftmost match\<close>
  "search_date_published [] = None"
| "search_date_published (c # cs) =
     (case date_published_here (c # cs) of
        Some g \<Rightarrow> Some g
      | None \<Rightarrow> search_date_published cs)"

definition regex_dates :: "'dt date_env \<Rightarrow> element \<Rightarrow> py_error + ('dt \<times> int) list" where
  \<comment> \<open>another script: \<open>re.search\<close> raises \<open>TypeError\<close> on a script without text\<close>
  "regex_dates E script_tag =
     (case elem_text script_tag of
        None \<Rightarrow> Inl TypeError
      | Some t \<Rightarrow>
          (case search_date_published t of
             None \<Rightarrow> Inr []
           | Some date_str \<Rightarrow>
               (case parse_date_str E (Some date_str) of
                  None \<Rightarrow> Inr []
                | Some datetime_obj \<Rightarrow> Inr [(datetime_obj, 9)])))"

definition script_dates :: "'dt date_env \<Rightarrow> element \<Rightarrow> py_error + ('dt \<times> int) list" where
  "script_dates E script_tag =
     (if str_in ''yoast-schema-graph''
           (case attrib_get script_tag ''class'' of None \<Rightarrow> [] | Some c \<Rightarrow> c)
      then yoast_dates E script_tag
      else regex_dates E script_tag)"

fun scripts_dates :: "'dt date_env \<Rightarrow> element list \<Rightarrow> py_error + ('dt \<times> int) list" where
  "scripts_dates E [] = Inr []"
| "scripts_dates E (script_tag # tags) =
     then_do (script_dates E script_tag) (\<lambda>ms.
     then_do (scripts_dates E tags) (\<lambda>ms'. Inr (ms @ ms')))"

definition meta_score :: "'dt date_env \<Rightarrow> known_meta_tag \<Rightarrow> element \<Rightarrow> 'dt \<Rightarrow> int" where
  "meta_score E known_meta_tag meta_tag datetime_obj =
     (let score = 6;
          score1 = (if attrib_get meta_tag ''name'' = Some (kt_value known_meta_tag)
                    then score + 2 else score);
          days_diff = today E - date_of E datetime_obj
      in if days_diff < 0 then score1 - 2
         else if days_diff > 25 * 365 then score1 - 1
         else score1)"

definition meta_dates ::
  "'dt date_env \<Rightarrow> 'doc parser \<Rightarrow> 'doc \<Rightarrow> ('dt \<times> int) list" where
  "meta_dates E P doc =
     concat (map (\<lambda>known_meta_tag.
        concat (map (\<lambda>meta_tag.
           (case parse_date_str E (getAttribute P meta_tag (kt_content known_meta_tag)) of
              None \<Rightarrow> []
            | Some datetime_obj \<Rightarrow>
                [(datetime_obj, meta_score E known_meta_tag meta_tag datetime_obj)]))
          (getElementsByTag P doc None (Some (kt_attribute known_meta_tag))
             (Some (kt_value known_meta_tag)))))
       (PUBLISH_DATE_TAGS E))"

definition date_matches ::
  "'dt date_env \<Rightarrow> 'doc parser \<Rightarrow> string \<Rightarrow> 'doc \<Rightarrow> py_error + ('dt \<times> int) list" where
  \<comment> \<open>the list \<open>date_matches\<close> before it is sorted\<close>
  "date_matches E P url doc =
     then_do
       (scripts_dates E
          (getElementsByTag P doc (Some ''script'') (Some ''type'') (Some ''application/ld+json'')))
       (\<lambda>ms. Inr (url_matches E url @ ms @ meta_dates E P doc))"

definition get_publishing_date ::
  "'dt date_env \<Rightarrow> 'doc parser \<Rightarrow> string \<Rightarrow> 'doc \<Rightarrow> py_error + 'dt option" where
  \<comment> \<open>\<open>sort(key=lambda x: x[1], reverse=True)\<close> is stable: candidates of one score keep
      the order in which they were collected\<close>
  "get_publishing_date E P url doc =
     then_do (date_matches E P url doc) (\<lambda>ms.
       Inr (case sort_key (\<lambda>m. - snd m) ms of [] \<Rightarrow> None | m # _ \<Rightarrow> Some (fst m)))"

section \<open>Instances for the examples\<close>

text \<open>
  The examples run on a document that is the list of its elements in document order,
  with a parser over such lists, and on small instances of the tables.
\<close>

definition list_parser :: "element list parser" where
  \<comment> \<open>Modelled from the spec: \<open>newspaper.parsers\<close> is not among the sources. The spec
      gives the query layer as \<open>query(doc, tagOrSelector, attr?, value?) -> [Element]\<close>,
      \<open>getText(element) -> string\<close> and \<open>getAttribute(element, name) -> string?\<close>. A
      selector is a tag name, or \<open>tag[attr="value"]\<close> with the quotes optional.\<close>
  "list_parser =
     \<lparr> getElementsByTag = (\<lambda>doc t a v.
          filter (\<lambda>e. (case t of None \<Rightarrow> True | Some n \<Rightarrow> tag e = n)
                       \<and> (case a of None \<Rightarrow> True
                            | Some n \<Rightarrow> attrib_get e n \<noteq> None \<and> attrib_get e n = v)) doc),
        getText = (\<lambda>e. strip (join '' '' (itertext e))),
        getAttribute = attrib_get,
        css_select = (\<lambda>doc sel.
          let t = takeWhile (\<lambda>c. c \<noteq> CHR ''['') sel;
              inner = takeWhile (\<lambda>c. c \<noteq> CHR '']'')
                        (drop 1 (dropWhile (\<lambda>c. c \<noteq> CHR ''['') sel));
              a = takeWhile (\<lambda>c. c \<noteq> CHR ''='') inner;
              v = filter (\<lambda>c. c \<noteq> CHR 0x22)
                    (drop 1 (dropWhile (\<lambda>c. c \<noteq> CHR ''='') inner))
          in filter (\<lambda>e. tag e = t \<and> (a = [] \<or> attrib_get e a = Some v)) doc) \<rparr>"

definition example_author_defines :: author_defines where
  \<comment> \<open>a small instance of the three author tables\<close>
  "example_author_defines =
     \<lparr> AUTHOR_ATTRS = [''name'', ''class''],
       AUTHOR_VALS = [''author'', ''byline''],
       AUTHOR_STOP_WORDS = [''By'', ''Senior Reporter'', ''Reporter''] \<rparr>"

definition two_bylines_doc :: "element list" where
  \<comment> \<open>\<open><meta name="author" content="Ann Lee">\<close> and \<open><span class="byline">By ANN LEE</span>\<close>\<close>
  "two_bylines_doc =
     [\<lparr> tag = ''meta'', attrib = [(''name'', ''author''), (''content'', ''Ann Lee'')],
         elem_text = None, itertext = [] \<rparr>,
      \<lparr> tag = ''span'', attrib = [(''class'', ''byline'')],
         elem_text = Some ''By ANN LEE'', itertext = [''By ANN LEE''] \<rparr>]"

text \<open>
  The two built-ins on the strings of this development, whose characters are the code
  points below 256: there \<open>str.isdigit\<close> holds of the non-empty texts of decimal and
  superscript digits, and \<open>int\<close> reads the texts of at most 4300 decimal digits.
\<close>

definition isdigit :: "string \<Rightarrow> bool" where
  \<comment> \<open>\<open>str.isdigit\<close>\<close>
  "isdigit s = (s \<noteq> [] \<and> list_all isdigit_char s)"

definition int_of_digits :: "string \<Rightarrow> int" where
  "int_of_digits s = foldl (\<lambda>n c. 10 * n + (int (of_char c) - 48)) 0 s"

definition py_int :: "string \<Rightarrow> py_error + int" where
  \<comment> \<open>\<open>int(s)\<close> on a text of \<open>isdigit\<close> characters: \<open>int\<close> reads decimal digits only, and
      no more than 4300 of them\<close>
  "py_int s =
     (if s \<noteq> [] \<and> list_all isdecimal s \<and> length s \<le> 4300
      then Inr (int_of_digits s) else Inl ValueError)"

definition latin1_str :: py_str where
  "latin1_str = \<lparr> str_isdigit = isdigit, str_to_int = py_int \<rparr>"

definition meta_tag :: "string \<Rightarrow> string \<Rightarrow> string \<Rightarrow> element" where
  \<comment> \<open>\<open><meta a="k" content="v">\<close>\<close>
  "meta_tag a k v =
     \<lparr> tag = ''meta'', attrib = [(a, k), (''content'', v)], elem_text = None, itertext = [] \<rparr>"

fun split_on :: "string \<Rightarrow> string list \<Rightarrow> string \<Rightarrow> nat \<Rightarrow> string \<Rightarrow> string list" where
  \<comment> \<open>\<open>re.split\<close> for a pattern that is a non-empty literal text \<open>pat\<close>: \<open>done\<close> are
      the pieces so far, \<open>cur\<close> is the piece being read, \<open>skip\<close> counts the characters
      of a match still to drop\<close>
  "split_on pat done cur skip [] = done @ [cur]"
| "split_on pat done cur skip (c # cs) =
     (if skip > 0 then split_on pat done cur (skip - 1) cs
      else if startswith (c # cs) pat then split_on pat (done @ [cur]) [] (length pat - 1) cs
      else split_on pat done (cur @ [c]) 0 cs)"

definition string_splitter :: "string \<Rightarrow> string \<Rightarrow> string list" where
  \<comment> \<open>Modelled from the spec: the splitter class is not among the sources. The spec has
      the title split at a delimiter into pieces; nothing is split off an empty text.\<close>
  "string_splitter pat s = (if s = [] then [] else split_on pat [] [] 0 s)"

definition example_title_defines :: title_defines where
  \<comment> \<open>Modelled from the spec: the tables of \<open>defines\<close> are not among the sources. The
      spec names the delimiters, in this order: the bar, the dash, the underscore, the
      slash and the arrow between spaces. It does not list the replacements, which are
      left out here: the example titles have nothing to replace.\<close>
  "example_title_defines =
     \<lparr> PIPE_SPLITTER = string_splitter ''|'',
       DASH_SPLITTER = string_splitter ''-'',
       UNDERSCORE_SPLITTER = string_splitter ''_'',
       SLASH_SPLITTER = string_splitter ''/'',
       ARROWS_SPLITTER = string_splitter [CHR '' '', CHR 0xBB, CHR '' ''],
       MOTLEY_REPLACEMENT = (\<lambda>s. s),
       TITLE_REPLACEMENTS = (\<lambda>s. s) \<rparr>"

definition text_element :: "string \<Rightarrow> string \<Rightarrow> element" where
  \<comment> \<open>an element with a tag and a text and no attributes\<close>
  "text_element t s = \<lparr> tag = t, attrib = [], elem_text = Some s, itertext = [s] \<rparr>"

definition foo_doc :: "element list" where
  \<comment> \<open>\<open><title>Foo - Bar News</title>\<close> and \<open><h1>Foo</h1>\<close>\<close>
  "foo_doc = [text_element ''title'' ''Foo - Bar News'', text_element ''h1'' ''Foo'']"

definition headline_doc :: "element list" where
  \<comment> \<open>\<open><title>Bar News Network Today - Foo Is Here</title>\<close> and \<open><h1>Foo Is Here</h1>\<close>\<close>
  "headline_doc =
     [text_element ''title'' ''Bar News Network Today - Foo Is Here'',
      text_element ''h1'' ''Foo Is Here'']"

text \<open>
  A stand-in for the two functions of the standard library, for the closed examples: it
  reads a URL of the shape \<open>scheme://host/path\<close> and a text without a scheme as
  \<open>urllib.parse\<close> does, and puts a scheme, a host and a path together as
  \<open>urlunparse\<close> does for the schemes that have a network location.
\<close>

definition simple_urlparse :: "string \<Rightarrow> parsed_url" where
  "simple_urlparse url =
     (let lead = takeWhile (\<lambda>c. c \<noteq> CHR '':'') url;
          has_scheme = (lead \<noteq> [] \<and> length lead < length url
                        \<and> list_all (\<lambda>c. isalnum c \<or> c \<in> set ''+-.'') lead
                        \<and> \<not> isdecimal (hd lead));
          sch = (if has_scheme then lower lead else []);
          rest = (if has_scheme then drop (length lead + 1) url else url);
          has_netloc = startswith rest ''//'';
          after = drop 2 rest;
          netloc = (if has_netloc then takeWhile (\<lambda>c. c \<notin> set ''/?#'') after else []);
          rest2 = (if has_netloc then dropWhile (\<lambda>c. c \<notin> set ''/?#'') after else rest);
          host = lower (takeWhile (\<lambda>c. c \<noteq> CHR '':'') netloc)
      in \<lparr> scheme = sch,
           hostname = (if host = [] then None else Some host),
           path = takeWhile (\<lambda>c. c \<notin> set ''?#'') rest2 \<rparr>)"

definition simple_urlunparse :: "string \<Rightarrow> string option \<Rightarrow> string \<Rightarrow> string" where
  "simple_urlunparse sch netloc url =
     (let host = (case netloc of None \<Rightarrow> [] | Some h \<Rightarrow> h);
          url1 = (if host \<noteq> []
                     \<or> (sch \<in> set [''http'', ''https'', ''ftp'', ''file''] \<and> take 2 url \<noteq> ''//'')
                  then ''//'' @ host @ (if url \<noteq> [] \<and> take 1 url \<noteq> ''/'' then ''/'' @ url else url)
                  else url)
      in if sch \<noteq> [] then sch @ '':'' @ url1 else url1)"

definition simple_url_lib :: url_lib where
  "simple_url_lib = \<lparr> urlparse = simple_urlparse, urlunparse = simple_urlunparse \<rparr>"

text \<open>
  An environment for the examples of the publishing date. A datetime is the number of
  its day, the proleptic Gregorian ordinal of \<open>date.toordinal\<close>, which \<open>ordinal\<close>
  computes from the year, the month and the day. The current date is taken to be
  2026-11-04. The search and the two parsers stand in for the libraries on the texts of
  the examples: \<open>json.loads\<close> reads \<open>graph_text\<close> and \<open>jsonld_text\<close> as the library
  does, and of the other texts of the examples \<open>broken_text\<close> does not load.
\<close>

definition is_leap :: "int \<Rightarrow> bool" where
  "is_leap y = (if y mod 100 = 0 then y mod 400 = 0 else y mod 4 = 0)"

definition days_before_month :: "int \<Rightarrow> int \<Rightarrow> int" where
  "days_before_month y m =
     (if m < 1 \<or> 12 < m then 0
      else [0, 31, 59, 90, 120, 151, 181, 212, 243, 273, 304, 334] ! nat (m - 1)
           + (if 2 < m \<and> is_leap y then 1 else 0))"

definition ordinal :: "int \<Rightarrow> int \<Rightarrow> int \<Rightarrow> int" where
  "ordinal y m d =
     (y - 1) * 365 + (y - 1) div 4 - (y - 1) div 100 + (y - 1) div 400
     + days_before_month y m + d"

definition quoted :: "string \<Rightarrow> string" where
  "quoted s = CHR 0x22 # s @ [CHR 0x22]"

definition jsonld_text :: string where
  \<comment> \<open>the text \<open>{"datePublished": "2021-03-04"}\<close>\<close>
  "jsonld_text = ''{'' @ quoted ''datePublished'' @ '': '' @ quoted ''2021-03-04'' @ ''}''"

definition graph_text :: string where
  \<comment> \<open>the text \<open>{"@graph": [{"@type": "WebPage", "datePublished": "2021-03-04"}]}\<close>\<close>
  "graph_text =
     ''{'' @ quoted ''@graph'' @ '': [{'' @ quoted ''@type'' @ '': '' @ quoted ''WebPage''
     @ '', '' @ quoted ''datePublished'' @ '': '' @ quoted ''2021-03-04'' @ ''}]}''"

definition broken_text :: string where
  \<comment> \<open>the text \<open>{"datePublished": "2021-03-04",}\<close>, which is no JSON: a comma before
      the closing brace\<close>
  "broken_text = ''{'' @ quoted ''datePublished'' @ '': '' @ quoted ''2021-03-04'' @ '',}''"

definition example_date_env :: "int date_env" where
  "example_date_env =
     \<lparr> strict_date_search =
         (\<lambda>url. if str_in ''/2023/05/10/'' url then Some ''/2023/05/10/'' else None),
       date_parser =
         map_of [(''/2023/05/10/'', ordinal 2023 5 10), (''2099-01-01'', ordinal 2099 1 1),
                 (''2021-03-04'', ordinal 2021 3 4), (''2001-11-08'', ordinal 2001 11 8),
                 (''1990-01-01'', ordinal 1990 1 1)],
       json_loads =
         (\<lambda>t. if t = graph_text
               then Some (JObj [(''@graph'',
                      JArr [JObj [(''@type'', JStr ''WebPage''),
                                  (''datePublished'', JStr ''2021-03-04'')]])])
               else if t = jsonld_text
               then Some (JObj [(''datePublished'', JStr ''2021-03-04'')])
               else None),
       PUBLISH_DATE_TAGS =
         [\<lparr> kt_attribute = ''property'', kt_value = ''article:published_time'',
             kt_content = ''content'' \<rparr>],
       today = ordinal 2026 11 4,
       date_of = (\<lambda>d. d) \<rparr>"

definition dated_doc :: "element list" where
  \<comment> \<open>\<open><meta property="article:published_time" content="2099-01-01">\<close>\<close>
  "dated_doc = [meta_tag ''property'' ''article:published_time'' ''2099-01-01'']"

definition script_element :: "string \<Rightarrow> string \<Rightarrow> element" where
  \<comment> \<open>\<open><script type="application/ld+json" class="cls">t</script>\<close>\<close>
  "script_element cls t =
     \<lparr> tag = ''script'', attrib = [(''type'', ''application/ld+json''), (''class'', cls)],
       elem_text = Some t, itertext = [t] \<rparr>"

definition empty_script :: element where
  \<comment> \<open>\<open><script type="application/ld+json"></script>\<close>: the script has no text\<close>
  "empty_script =
     \<lparr> tag = ''script'', attrib = [(''type'', ''application/ld+json'')],
       elem_text = None, itertext = [] \<rparr>"

definition jsonld_doc :: "element list" where
  \<comment> \<open>a script of the yoast class with a graph, a script of another class, and a meta
      tag with a date of 1990\<close>
  "jsonld_doc =
     [script_element ''yoast-schema-graph'' graph_text,
      script_element ''other'' jsonld_text,
      meta_tag ''property'' ''article:published_time'' ''1990-01-01'']"

section \<open>The article\<close>

text \<open>
  Of an \<open>Article\<close> the model keeps the fields that \<open>download\<close>, \<open>parse\<close> and \<open>nlp\<close>
  read to decide what to do, and of its configuration the two settings \<open>download\<close>
  reads. The html is a \<open>str\<close>; the conversion of \<open>bytes\<close> in \<open>set_html\<close> is left out.
\<close>

datatype ArticleDownloadState = NOT_STARTED | FAILED_RESPONSE | SUCCESS

datatype article_error = ArticleException string | Raised py_error

record configuration =
  follow_meta_refresh :: bool
  MAX_TITLE :: nat

record article =
  url :: string
  original_url :: string
  title :: string
  read_more_link :: string
  html :: string
  is_parsed :: bool
  download_state :: ArticleDownloadState
  download_exception_msg :: "string option"
  config :: configuration

definition new_article :: "configuration \<Rightarrow> string \<Rightarrow> string \<Rightarrow> string \<Rightarrow> article" where
  \<comment> \<open>the fields as \<open>__init__\<close> leaves them, for the prepared URL \<open>u\<close>\<close>
  "new_article c u t r =
     \<lparr> url = u, original_url = u, title = t, read_more_link = r, html = [],
       is_parsed = False, download_state = NOT_STARTED, download_exception_msg = None,
       config = c \<rparr>"

text \<open>
  The network, the file system and the helpers of other modules are parameters. A
  request is answered in view of all the requests made before it, so the same URL may
  be answered differently each time. The state of a download is the article together
  with the requests made so far.
\<close>

datatype request = Get2XX string | GetRaw string | ReadFile string

record env =
  get_html_2XX_only :: "request list \<Rightarrow> string \<Rightarrow> string + string \<times> int"
  get_html :: "request list \<Rightarrow> string \<Rightarrow> string"
  read_file :: "request list \<Rightarrow> string \<Rightarrow> string + string"
  extract_meta_refresh :: "string \<Rightarrow> string option"
  read_more_hrefs :: "string \<Rightarrow> string \<Rightarrow> string option list"
  prepare_url :: "string \<Rightarrow> string \<Rightarrow> string"

text \<open>
  \<open>get_html_2XX_only\<close> gives the html and the status code, or the text of the
  \<open>RequestException\<close> it raises (\<open>Inl\<close>); \<open>read_file\<close> gives the content of a file, or
  the \<open>strerror\<close> of the \<open>OSError\<close>; \<open>read_more_hrefs html xpath\<close> gives the \<open>href\<close> of
  each node that the selector finds in the parsed html, in order.
\<close>

fun digits :: "nat \<Rightarrow> string" where
  "digits n = (if n < 10 then [char_of (48 + n)] else digits (n div 10) @ [char_of (48 + n mod 10)])"

definition str_int :: "int \<Rightarrow> string" where
  \<comment> \<open>\<open>str(n)\<close>\<close>
  "str_int n = (if n < 0 then ''-'' @ digits (nat (- n)) else digits (nat n))"

definition str_opt :: "string option \<Rightarrow> string" where
  \<comment> \<open>\<open>str(x)\<close> for a string or \<open>None\<close>\<close>
  "str_opt x = (case x of None \<Rightarrow> ''None'' | Some t \<Rightarrow> t)"

definition detect_protection :: "string \<Rightarrow> string option" where
  "detect_protection h =
     (if str_in ''cloudflare'' h then Some ''Cloudflare''
      else if str_in ''/cdn-cgi/challenge-platform/h/b/orchestrate/chl_page'' h
      then Some ''Cloudflare''
      else if str_in ''CloudFront'' h then Some ''CloudFront''
      else if str_in ''perimeterx'' h then Some ''PerimeterX''
      else None)"

definition parse_scheme_file ::
  "env \<Rightarrow> string \<Rightarrow> article \<times> request list \<Rightarrow> string option \<times> article \<times> request list" where
  "parse_scheme_file E p s =
     (case s of (a, reqs) \<Rightarrow>
        (case read_file E reqs p of
           Inr content \<Rightarrow> (Some content, a, reqs @ [ReadFile p])
         | Inl strerror \<Rightarrow>
             (None,
              a \<lparr> download_state := FAILED_RESPONSE, download_exception_msg := Some strerror \<rparr>,
              reqs @ [ReadFile p])))"

definition parse_scheme_http ::
  "env \<Rightarrow> string option \<Rightarrow> article \<times> request list
   \<Rightarrow> string option \<times> article \<times> request list" where
  \<comment> \<open>\<open>url_arg\<close> is the parameter \<open>url\<close>; the request goes to \<open>url or self.url\<close>\<close>
  "parse_scheme_http E url_arg s =
     (case s of (a, reqs) \<Rightarrow>
        (let target = (case url_arg of
                         None \<Rightarrow> url a
                       | Some u \<Rightarrow> if u \<noteq> [] then u else url a)
         in case get_html_2XX_only E reqs target of
              Inl msg \<Rightarrow>
                (None,
                 a \<lparr> download_state := FAILED_RESPONSE, download_exception_msg := Some msg \<rparr>,
                 reqs @ [Get2XX target])
            | Inr (h, stauts_code) \<Rightarrow>
                if stauts_code \<ge> 400 then
                  (None,
                   a \<lparr> download_state := FAILED_RESPONSE,
                       download_exception_msg :=
                         Some (case detect_protection h of
                                 Some protection \<Rightarrow>
                                   ''Website protected with '' @ protection @ '', url: ''
                                   @ str_opt url_arg
                               | None \<Rightarrow>
                                   ''Status code '' @ str_int stauts_code @ '' for url ''
                                   @ str_opt url_arg) \<rparr>,
                   reqs @ [Get2XX target])
                else (Some h, a, reqs @ [Get2XX target])))"

definition set_html :: "article \<Rightarrow> string \<Rightarrow> article" where
  "set_html a h = (if h \<noteq> [] then a \<lparr> html := h, download_state := SUCCESS \<rparr> else a)"

definition set_title :: "article \<Rightarrow> string option \<Rightarrow> article" where
  "set_title a input_title =
     (case input_title of
        None \<Rightarrow> a
      | Some t \<Rightarrow> if t \<noteq> [] then a \<lparr> title := take (MAX_TITLE (config a)) t \<rparr> else a)"

fun first_href :: "string option list \<Rightarrow> string option" where
  \<comment> \<open>the \<open>href\<close> of the first node that has one: the loop over the nodes breaks there\<close>
  "first_href [] = None"
| "first_href (None # nodes) = first_href nodes"
| "first_href (Some h # nodes) = (if h \<noteq> [] then Some h else first_href nodes)"

definition follow_read_more ::
  "env \<Rightarrow> string \<Rightarrow> bool \<Rightarrow> article \<times> request list \<Rightarrow> string \<times> article \<times> request list" where
  \<comment> \<open>the block \<open>if not ignore_read_more and self.read_more_link\<close>: the html to keep and
      the state after it\<close>
  "follow_read_more E h ignore_read_more s =
     (if \<not> ignore_read_more \<and> read_more_link (fst s) \<noteq> [] then
        (case first_href (read_more_hrefs E h (read_more_link (fst s))) of
           None \<Rightarrow> (h, s)
         | Some href \<Rightarrow>
             (let new_url = prepare_url E href (url (fst s))
              in case parse_scheme_http E (Some new_url) s of
                   (Some h', a, reqs) \<Rightarrow> (h', a \<lparr> url := new_url \<rparr>, reqs)
                 | (None, s') \<Rightarrow> (h, s')))
      else (h, s))"

definition finish_download ::
  "env \<Rightarrow> string \<Rightarrow> string option \<Rightarrow> bool \<Rightarrow> article \<times> request list
   \<Rightarrow> article \<times> request list" where
  \<comment> \<open>\<open>download\<close> from the read-more block to its end\<close>
  "finish_download E h title_arg ignore_read_more s =
     (case follow_read_more E h ignore_read_more s of
        (h', a, reqs) \<Rightarrow> (set_title (set_html a h') title_arg, reqs))"

definition first_fetch ::
  "env \<Rightarrow> url_lib \<Rightarrow> string option \<Rightarrow> article \<times> request list
   \<Rightarrow> string option \<times> article \<times> request list" where
  \<comment> \<open>the html \<open>download\<close> starts from: the input html, or what the file or the network
      gives for the article's URL (\<open>None\<close> when that fails)\<close>
  "first_fetch E U input_html s =
     (case input_html of
        None \<Rightarrow>
          (let parsed_url = urlparse U (url (fst s))
           in if scheme parsed_url = ''file'' then parse_scheme_file E (path parsed_url) s
              else parse_scheme_http E None s)
      | Some h \<Rightarrow> (Some h, s))"

function download ::
  "env \<Rightarrow> url_lib \<Rightarrow> string option \<Rightarrow> string option \<Rightarrow> int \<Rightarrow> bool
   \<Rightarrow> article \<times> request list \<Rightarrow> article \<times> request list" where
  "download E U input_html title_arg recursion_counter ignore_read_more s =
     (case first_fetch E U input_html s of
        (None, s1) \<Rightarrow> s1
      | (Some h, s1) \<Rightarrow>
          (case (if follow_meta_refresh (config (fst s1)) then extract_meta_refresh E h
                 else None) of
             None \<Rightarrow> finish_download E h title_arg ignore_read_more s1
           | Some meta_refresh_url \<Rightarrow>
               if meta_refresh_url \<noteq> [] \<and> recursion_counter < 1 then
                 download E U (Some (get_html E (snd s1) meta_refresh_url)) None
                   (recursion_counter + 1) False
                   (fst s1, snd s1 @ [GetRaw meta_refresh_url])
               else finish_download E h title_arg ignore_read_more s1))"
  by pat_completeness auto
termination
  by (relation "measure (\<lambda>(E, U, input_html, title_arg, recursion_counter, ignore_read_more, s).
                  nat (1 - recursion_counter))") auto

declare download.simps [simp del]

definition throw_if_not_downloaded_verbose :: "article \<Rightarrow> article_error + unit" where
  "throw_if_not_downloaded_verbose a =
     (case download_state a of
        NOT_STARTED \<Rightarrow> Inl (ArticleException ''You must `download()` an article first!'')
      | FAILED_RESPONSE \<Rightarrow>
          Inl (ArticleException
                 (''Article `download()` failed with '' @ str_opt (download_exception_msg a)
                  @ '' on URL '' @ url a))
      | SUCCESS \<Rightarrow> Inr ())"

definition throw_if_not_parsed_verbose :: "article \<Rightarrow> article_error + unit" where
  "throw_if_not_parsed_verbose a =
     (if \<not> is_parsed a then Inl (ArticleException ''You must `parse()` an article first!'')
      else Inr ())"

text \<open>
  What \<open>parse\<close> and \<open>nlp\<close> do once their guards have passed is the work of the
  collaborators: \<open>fromstring\<close> builds the document (\<open>None\<close> when it fails), \<open>extract_fields\<close>
  stands for the steps of \<open>parse\<close> from the title to the images, and \<open>analyse\<close> for the
  keywords and the summary.
\<close>

record 'doc pipeline =
  fromstring :: "string \<Rightarrow> 'doc option"
  extract_fields :: "article \<Rightarrow> 'doc \<Rightarrow> article_error + article"
  analyse :: "article \<Rightarrow> article_error + article"

definition parse :: "'doc pipeline \<Rightarrow> article \<Rightarrow> article_error + article" where
  "parse X a =
     then_do (throw_if_not_downloaded_verbose a) (\<lambda>_.
       case fromstring X (html a) of
         None \<Rightarrow> Inr a
       | Some doc \<Rightarrow> then_do (extract_fields X a doc) (\<lambda>a'. Inr (a' \<lparr> is_parsed := True \<rparr>)))"

definition nlp :: "'doc pipeline \<Rightarrow> article \<Rightarrow> article_error + article" where
  "nlp X a =
     then_do (throw_if_not_downloaded_verbose a) (\<lambda>_.
     then_do (throw_if_not_parsed_verbose a) (\<lambda>_. analyse X a))"

definition raw_fetches :: "request list \<Rightarrow> nat" where
  \<comment> \<open>how many of the requests fetched the target of a meta refresh\<close>
  "raw_fetches reqs = length (filter (\<lambda>r. case r of GetRaw u \<Rightarrow> True | _ \<Rightarrow> False) reqs)"

definition success_has_html :: "article \<Rightarrow> bool" where
  \<comment> \<open>an article in the state \<open>SUCCESS\<close> has html\<close>
  "success_has_html a = (download_state a \<noteq> SUCCESS \<or> html a \<noteq> [])"

definition example_config :: configuration where
  "example_config = \<lparr> follow_meta_refresh = True, MAX_TITLE = 200 \<rparr>"

definition refresh_env :: env where
  \<comment> \<open>a site on which every page but \<open>/b\<close> holds a meta refresh to \<open>/b\<close>, and the page
      \<open>/b\<close> one to \<open>/c\<close>\<close>
  "refresh_env =
     \<lparr> get_html_2XX_only = (\<lambda>reqs u. Inr (''<meta http-equiv=refresh content=0;url=/b>'', 200)),
       get_html = (\<lambda>reqs u. if u = ''http://example.com/b''
                              then ''<meta http-equiv=refresh content=0;url=/c>''
                              else ''<meta http-equiv=refresh content=0;url=/b>''),
       read_file = (\<lambda>reqs p. Inl ''No such file or directory''),
       extract_meta_refresh =
         (\<lambda>h. if str_in ''url=/b'' h then Some ''http://example.com/b''
               else if str_in ''url=/c'' h then Some ''http://example.com/c'' else None),
       read_more_hrefs = (\<lambda>h x. []),
       prepare_url = (\<lambda>u base. u) \<rparr>"

definition failing_env :: env where
  \<comment> \<open>a site that answers every request with the status 404\<close>
  "failing_env = refresh_env \<lparr> get_html_2XX_only := (\<lambda>reqs u. Inr (''Not Found'', 404)) \<rparr>"

definition example_pipeline :: "string pipeline" where
  "example_pipeline =
     \<lparr> fromstring = (\<lambda>h. if h = [] then None else Some h),
       extract_fields = (\<lambda>a doc. Inr a),
       analyse = (\<lambda>a. Inr a) \<rparr>"

section \<open>Properties of the author extraction\<close>

lemma isspace_lower_char: "isspace (lower_char c) = isspace c"
  unfolding isspace_def lower_char_def Let_def by auto

lemma strip_lower: "strip (lower s) = lower (strip s)"
  by (simp add: strip_def lower_def dropWhile_map rev_map comp_def isspace_lower_char)

lemma dropWhile_rev_head:
  "xs = [] \<or> \<not> P (hd xs) \<Longrightarrow>
   dropWhile P (rev (dropWhile P (rev xs))) = rev (dropWhile P (rev xs))"
  by (cases xs) (auto simp: dropWhile_append)

lemma dropWhile_head: "dropWhile P s = [] \<or> \<not> P (hd (dropWhile P s))"
  by (metis hd_dropWhile)

lemma strip_idem: "strip (strip s) = strip s"
  unfolding strip_def
  by (simp add: dropWhile_rev_head [OF dropWhile_head])

lemma uniqify_key_strip: "uniqify_key (strip x) = uniqify_key x"
  by (simp add: uniqify_key_def strip_lower strip_idem)

text \<open>The keys of \<open>seen\<close> are the keys of the items, each at its first place.\<close>

lemma seen_keys:
  "map fst (uniqify_seen lst) = rev (remdups (rev (map uniqify_key lst)))"
proof (induction lst rule: rev_induct)
  case Nil
  show ?case by (simp add: uniqify_seen_def)
next
  case (snoc x xs)
  have "set (map fst (uniqify_seen xs)) = set (map uniqify_key xs)"
    by (simp only: snoc.IH) simp
  then show ?case using snoc.IH
    by (simp add: uniqify_seen_def update_keys)
qed

text \<open>The value under a key is the stripped item that was assigned last.\<close>

lemma seen_map_of:
  "map_of (uniqify_seen lst) = map_of (rev (map (\<lambda>x. (uniqify_key x, strip x)) lst))"
proof (induction lst rule: rev_induct)
  case Nil
  show ?case by (simp add: uniqify_seen_def)
next
  case (snoc x xs)
  then show ?case
    by (simp add: uniqify_seen_def update_conv' fun_eq_iff)
qed

lemma seen_distinct: "distinct (map fst (uniqify_seen lst))"
  by (simp add: seen_keys)

lemma seen_lookup:
  assumes "(k, v) \<in> set (uniqify_seen lst)"
  shows "map_of (rev (map (\<lambda>x. (uniqify_key x, strip x)) lst)) k = Some v"
proof -
  from assms have "map_of (uniqify_seen lst) k = Some v"
    using seen_distinct by simp
  then show ?thesis by (simp add: seen_map_of)
qed

lemma seen_key_of_value:
  assumes "(k, v) \<in> set (uniqify_seen lst)"
  shows "uniqify_key v = k"
proof -
  from seen_lookup [OF assms]
  have "(k, v) \<in> set (rev (map (\<lambda>x. (uniqify_key x, strip x)) lst))"
    by (rule map_of_SomeD)
  then show ?thesis by (auto simp: uniqify_key_strip)
qed

lemma uniqify_keys:
  "map uniqify_key (uniqify_list lst)
   = filter (\<lambda>k. k \<noteq> []) (rev (remdups (rev (map uniqify_key lst))))"
proof -
  have "map uniqify_key (uniqify_list lst)
        = map fst (filter (\<lambda>(item, v). item \<noteq> []) (uniqify_seen lst))"
    unfolding uniqify_list_def using seen_key_of_value [of _ _ lst]
    by auto
  also have "\<dots> = filter (\<lambda>k. k \<noteq> []) (map fst (uniqify_seen lst))"
    by (simp add: filter_map comp_def case_prod_unfold)
  finally show ?thesis by (simp add: seen_keys)
qed

lemma map_of_last:
  "map_of (rev (map (\<lambda>x. (f x, g x)) c)) k = Some v \<Longrightarrow>
   \<exists>i<length c. f (c ! i) = k \<and> v = g (c ! i)
      \<and> (\<forall>j. i < j \<and> j < length c \<longrightarrow> f (c ! j) \<noteq> k)"
proof (induction c rule: rev_induct)
  case Nil
  then show ?case by simp
next
  case (snoc x xs)
  show ?case
  proof (cases "f x = k")
    case True
    with snoc.prems have "v = g x" by simp
    with True show ?thesis
      by (intro exI [of _ "length xs"]) auto
  next
    case False
    with snoc.prems have "map_of (rev (map (\<lambda>x. (f x, g x)) xs)) k = Some v" by simp
    from snoc.IH [OF this] obtain i where i: "i < length xs" "f (xs ! i) = k" "v = g (xs ! i)"
      "\<forall>j. i < j \<and> j < length xs \<longrightarrow> f (xs ! j) \<noteq> k" by blast
    have "\<forall>j. i < j \<and> j < length (xs @ [x]) \<longrightarrow> f ((xs @ [x]) ! j) \<noteq> k"
      using i(4) False by (auto simp: nth_append)
    with i(1-3) show ?thesis
      by (intro exI [of _ i]) (simp add: nth_append)
  qed
qed

lemma uniqify_last:
  assumes "a \<in> set (uniqify_list c)"
  shows "\<exists>i<length c. a = strip (c ! i)
           \<and> (\<forall>j. i < j \<and> j < length c \<longrightarrow> uniqify_key (c ! j) \<noteq> uniqify_key (c ! i))"
proof -
  from assms obtain k where "(k, a) \<in> set (uniqify_seen c)"
    by (auto simp: uniqify_list_def)
  from map_of_last [OF seen_lookup [OF this]] show ?thesis
    by blast
qed

text \<open>
  C3, as the code has it. For every document, with \<open>c\<close> the names found before
  de-duplication (the bylines parsed and the stop words removed): no two entries of the
  list \<open>get_authors\<close> returns are equal under case-insensitive comparison after
  trimming; the entries stand in the order in which their keys were first seen in \<open>c\<close>
  (the empty key left out); and each entry is the trimmed form of the last name of \<open>c\<close>
  with its key, so it has the casing of the last occurrence, not of the first.
\<close>

theorem get_authors_unique_last_casing:
  "distinct (map uniqify_key (get_authors P D doc))
   \<and> map uniqify_key (get_authors P D doc)
       = filter (\<lambda>k. k \<noteq> []) (rev (remdups (rev (map uniqify_key (author_candidates P D doc)))))
   \<and> (\<forall>a \<in> set (get_authors P D doc).
         \<exists>i<length (author_candidates P D doc).
            a = strip (author_candidates P D doc ! i)
            \<and> (\<forall>j. i < j \<and> j < length (author_candidates P D doc)
                   \<longrightarrow> uniqify_key (author_candidates P D doc ! j)
                        \<noteq> uniqify_key (author_candidates P D doc ! i)))"
proof -
  have "distinct (map uniqify_key (get_authors P D doc))"
    by (simp add: get_authors_def uniqify_keys)
  moreover have "map uniqify_key (get_authors P D doc)
       = filter (\<lambda>k. k \<noteq> []) (rev (remdups (rev (map uniqify_key (author_candidates P D doc)))))"
    by (simp add: get_authors_def uniqify_keys)
  moreover have "\<forall>a \<in> set (get_authors P D doc).
         \<exists>i<length (author_candidates P D doc).
            a = strip (author_candidates P D doc ! i)
            \<and> (\<forall>j. i < j \<and> j < length (author_candidates P D doc)
                   \<longrightarrow> uniqify_key (author_candidates P D doc ! j)
                        \<noteq> uniqify_key (author_candidates P D doc ! i))"
    unfolding get_authors_def using uniqify_last by blast
  ultimately show ?thesis by blast
qed

text \<open>
  The two names of \<open>two_bylines_doc\<close> differ in case only. The list returned has the
  casing of the second, \<open>ANN LEE\<close>, where the claim promises that of the first.
\<close>

theorem get_authors_first_casing_counterexample:
  "author_candidates list_parser example_author_defines two_bylines_doc
     = [''Ann Lee'', ''ANN LEE'']
   \<and> get_authors list_parser example_author_defines two_bylines_doc = [''ANN LEE'']"
  by code_simp

theorem get_authors_unique_last_casing_witness:
  "get_authors list_parser example_author_defines two_bylines_doc \<noteq> []
   \<and> distinct (map uniqify_key (get_authors list_parser example_author_defines two_bylines_doc))
   \<and> (\<exists>i<length (author_candidates list_parser example_author_defines two_bylines_doc).
         ''ANN LEE'' = strip (author_candidates list_parser example_author_defines two_bylines_doc ! i))"
proof -
  have r: "get_authors list_parser example_author_defines two_bylines_doc = [''ANN LEE'']"
    by code_simp
  from get_authors_unique_last_casing [of list_parser example_author_defines two_bylines_doc]
  show ?thesis unfolding r by auto
qed

text \<open>
  C8. The claim asks that no name of a single token is returned by \<open>parse_byline\<close>. The
  check \<open>len(curname) >= 2\<close> guards the name left over at the end of the loop only; at a
  delimiter a name is appended as soon as it has one token. On \<open>Tyler, Lucas Ou\<close> the
  tokens are \<open>Tyler\<close>, the empty token, \<open>Lucas\<close> and \<open>Ou\<close>, and the single token
  \<open>Tyler\<close> is returned as a name.
\<close>

theorem parse_byline_single_token:
  "parse_byline ''Tyler, Lucas Ou'' = [''Tyler'', ''Lucas Ou'']"
  by code_simp

section \<open>Properties of the nested metadata\<close>

lemma split_when_nonempty: "split_when P s \<noteq> []"
  by (induction s) (auto split: list.splits)

lemma split_when_none: "\<forall>c\<in>set s. \<not> P c \<Longrightarrow> split_when P s = [s]"
  by (induction s) auto

lemma split_when_some: "\<exists>c\<in>set s. P c \<Longrightarrow> tl (split_when P s) \<noteq> []"
proof (induction s)
  case Nil
  then show ?case by simp
next
  case (Cons a s)
  show ?case
  proof (cases "P a")
    case True
    then show ?thesis by (simp add: split_when_nonempty)
  next
    case False
    with Cons.prems have "\<exists>c\<in>set s. P c" by auto
    from Cons.IH [OF this] False show ?thesis
      by (cases "split_when P s") auto
  qed
qed

lemma lookup_insert:
  "ps \<noteq> [] \<Longrightarrow> lookup_path ps (MDict (insert_path ps v d)) = Some v"
  by (induction ps v d rule: insert_path.induct) (auto simp: update_conv' Let_def)

lemma store_lookup:
  "lookup_path (split_when (\<lambda>c. c = CHR '':'') k) (MDict (store data k v)) = Some v"
proof (cases "CHR '':'' \<in> set k")
  case False
  then have "split_when (\<lambda>c. c = CHR '':'') k = [k]"
    by (intro split_when_none) auto
  with False show ?thesis by (simp add: store_def update_conv')
next
  case True
  then have t: "tl (split_when (\<lambda>c. c = CHR '':'') k) \<noteq> []"
    by (intro split_when_some) auto
  then obtain h ps where hp: "split_when (\<lambda>c. c = CHR '':'') k = h # ps" "ps \<noteq> []"
    by (cases "split_when (\<lambda>c. c = CHR '':'') k") auto
  with True show ?thesis
    by (simp add: store_def update_conv' Let_def lookup_insert)
qed

lemma list_all_update:
  "Q (k, v) \<Longrightarrow> list_all Q al \<Longrightarrow> list_all Q (AList.update k v al)"
  by (induction al) auto

lemma map_of_list_all: "list_all Q al \<Longrightarrow> map_of al k = Some x \<Longrightarrow> Q (k, x)"
  by (induction al) (auto split: if_splits)

lemma insert_path_leaves:
  "stripped_leaves v \<Longrightarrow> stripped_leaves (MDict d) \<Longrightarrow> stripped_leaves (MDict (insert_path ps v d))"
proof (induction ps v d rule: insert_path.induct)
  case (1 v ref)
  then show ?case by simp
next
  case (2 part v ref)
  then show ?case by (simp add: list_all_update)
next
  case (3 part p ps v ref)
  let ?sub = "(case map_of ref part of
                   None \<Rightarrow> []
                 | Some x \<Rightarrow>
                     if \<not> truthy x then []
                     else (case x of MDict d \<Rightarrow> d | _ \<Rightarrow> [(''identifier'', x)]))"
  have "stripped_leaves (MDict ?sub)"
    using "3.prems"(2) map_of_list_all [of "\<lambda>kv. stripped_leaves (snd kv)" ref part]
    by (auto split: option.splits meta_value.splits)
  from "3.IH" [OF refl "3.prems"(1) this] "3.prems"(2) show ?case
    by (simp add: Let_def list_all_update)
qed

lemma store_leaves:
  assumes "stripped_leaves v" "stripped_leaves (MDict data)"
  shows "stripped_leaves (MDict (store data k v))"
proof (cases "CHR '':'' \<in> set k")
  case False
  with assms show ?thesis by (simp add: store_def list_all_update)
next
  case True
  let ?h = "hd (split_when (\<lambda>c. c = CHR '':'') k)"
  let ?ref = "(case map_of data ?h of
                      None \<Rightarrow> []
                    | Some (MDict d) \<Rightarrow> d
                    | Some x \<Rightarrow> [(?h, x)])"
  have "stripped_leaves (MDict ?ref)"
    using assms(2) map_of_list_all [of "\<lambda>kv. stripped_leaves (snd kv)" data ?h]
    by (auto split: option.splits meta_value.splits)
  from insert_path_leaves [OF assms(1) this] assms(2) True show ?thesis
    by (simp add: store_def Let_def list_all_update)
qed

lemma meta_key_value_stripped:
  "meta_key_value prop = Some (k, v) \<Longrightarrow> strip v = v"
  unfolding meta_key_value_def
  by (auto simp: strip_idem split: option.splits if_splits)

lemma convert_value_leaves:
  "strip v = v \<Longrightarrow> convert_value B v = Inr mv \<Longrightarrow> stripped_leaves mv"
  by (auto simp: convert_value_def split: if_splits sum.splits)

lemma meta_step_leaves:
  assumes "meta_step B data prop = Inr data'" "stripped_leaves (MDict data)"
  shows "stripped_leaves (MDict data')"
proof (cases "meta_key_value prop")
  case None
  with assms show ?thesis by (simp add: meta_step_def)
next
  case (Some kv)
  obtain k v where kv: "kv = (k, v)" by (cases kv)
  with Some assms(1) obtain mv where mv: "convert_value B v = Inr mv" "data' = store data k mv"
    by (auto simp: meta_step_def split: sum.splits)
  from Some kv have "strip v = v" by (simp add: meta_key_value_stripped)
  from convert_value_leaves [OF this mv(1)] have "stripped_leaves mv" .
  from store_leaves [OF this assms(2)] mv(2) show ?thesis by simp
qed

lemma meta_loop_leaves:
  "meta_loop B data props = Inr data' \<Longrightarrow> stripped_leaves (MDict data)
   \<Longrightarrow> stripped_leaves (MDict data')"
  by (induction props arbitrary: data) (auto split: sum.splits dest: meta_step_leaves)

lemma identifier_kept:
  "ps \<noteq> [] \<Longrightarrow> qs \<noteq> [] \<Longrightarrow> lookup_path ps (MDict d) = Some s \<Longrightarrow> truthy s \<Longrightarrow> is_scalar s \<Longrightarrow>
   lookup_path ps (MDict (insert_path (ps @ qs) v d))
   = Some (MDict (insert_path qs v [(''identifier'', s)]))"
proof (induction ps arbitrary: d)
  case Nil
  then show ?case by simp
next
  case (Cons p ps)
  obtain q qs' where qs: "qs = q # qs'" using Cons.prems(2) by (cases qs) auto
  show ?case
  proof (cases ps)
    case Nil
    with Cons.prems qs show ?thesis
      by (cases s) (auto simp: update_conv' split: option.splits)
  next
    case (Cons p' ps')
    from Cons.prems(3) obtain x where x: "map_of d p = Some x" "lookup_path ps x = Some s"
      by (auto split: option.splits)
    with Cons obtain d' where d': "x = MDict d'" by (cases x) auto
    with x Cons have ne: "d' \<noteq> []" by (auto split: option.splits)
    have "lookup_path ps (MDict (insert_path (ps @ qs) v d'))
          = Some (MDict (insert_path qs v [(''identifier'', s)]))"
      using Cons.IH [of d'] x d' Cons.prems Cons by simp
    with x d' ne Cons show ?thesis
      by (simp add: update_conv' Let_def)
  qed
qed

lemma wrapped_scalar_kept:
  "qs \<noteq> [] \<Longrightarrow> hd qs \<noteq> f \<Longrightarrow> map_of (insert_path qs v [(f, s)]) f = Some s"
  by (cases "(qs, v, [(f, s)])" rule: insert_path.cases) (auto simp: Let_def)


text \<open>
  C6, as the code has it. Here \<open>h # ps\<close> are the parts of the key that holds the scalar
  \<open>s\<close>, and \<open>qs\<close> are the further parts of the deeper colon-separated key that arrives
  later with the value \<open>v\<close>. A scalar held under a top-level key (a key without a colon)
  is converted in place into a single-entry mapping whose field is named after the key
  itself. A scalar held below the top level that is a non-empty string or a non-zero
  integer is converted in place into a single-entry mapping whose field is named
  \<open>identifier\<close>. In both cases the value of the deeper key is then stored in that
  mapping, where it is read at the path \<open>qs\<close>, and the scalar stays readable under the
  field unless the first of the further parts is that very field name.
\<close>

theorem store_under_scalar:
  "(map_of data h = Some s \<and> is_scalar s
      \<and> split_when (\<lambda>c. c = CHR '':'') key = h # qs \<and> qs \<noteq> []
    \<longrightarrow> map_of (store data key v) h = Some (MDict (insert_path qs v [(h, s)]))
        \<and> lookup_path qs (MDict (insert_path qs v [(h, s)])) = Some v
        \<and> (hd qs \<noteq> h \<longrightarrow> map_of (insert_path qs v [(h, s)]) h = Some s))
   \<and> (lookup_path (h # ps) (MDict data) = Some s \<and> ps \<noteq> [] \<and> is_scalar s \<and> truthy s
      \<and> split_when (\<lambda>c. c = CHR '':'') key = h # ps @ qs \<and> qs \<noteq> []
    \<longrightarrow> lookup_path (h # ps) (MDict (store data key v))
          = Some (MDict (insert_path qs v [(''identifier'', s)]))
        \<and> lookup_path qs (MDict (insert_path qs v [(''identifier'', s)])) = Some v
        \<and> (hd qs \<noteq> ''identifier''
           \<longrightarrow> map_of (insert_path qs v [(''identifier'', s)]) ''identifier'' = Some s))"
proof (intro conjI impI)
  assume a: "map_of data h = Some s \<and> is_scalar s
      \<and> split_when (\<lambda>c. c = CHR '':'') key = h # qs \<and> qs \<noteq> []"
  then have colon: "CHR '':'' \<in> set key"
    using split_when_none [of key "\<lambda>c. c = CHR '':''"] by auto
  from a colon show "map_of (store data key v) h = Some (MDict (insert_path qs v [(h, s)]))"
    by (cases s) (auto simp: store_def update_conv')
  from a show "lookup_path qs (MDict (insert_path qs v [(h, s)])) = Some v"
    by (simp add: lookup_insert)
  assume "hd qs \<noteq> h"
  with a show "map_of (insert_path qs v [(h, s)]) h = Some s"
    by (simp add: wrapped_scalar_kept)
next
  assume a: "lookup_path (h # ps) (MDict data) = Some s \<and> ps \<noteq> [] \<and> is_scalar s \<and> truthy s
      \<and> split_when (\<lambda>c. c = CHR '':'') key = h # ps @ qs \<and> qs \<noteq> []"
  then have colon: "CHR '':'' \<in> set key"
    using split_when_none [of key "\<lambda>c. c = CHR '':''"] by auto
  from a obtain x where x: "map_of data h = Some x" "lookup_path ps x = Some s"
    by (auto split: option.splits)
  with a obtain d where d: "x = MDict d" by (cases x; cases ps) auto
  from a x d have "lookup_path ps (MDict (insert_path (ps @ qs) v d))
                   = Some (MDict (insert_path qs v [(''identifier'', s)]))"
    by (intro identifier_kept) auto
  with a colon x d
  show "lookup_path (h # ps) (MDict (store data key v))
          = Some (MDict (insert_path qs v [(''identifier'', s)]))"
    by (simp add: store_def update_conv')
  from a show "lookup_path qs (MDict (insert_path qs v [(''identifier'', s)])) = Some v"
    by (simp add: lookup_insert)
  assume "hd qs \<noteq> ''identifier''"
  with a show "map_of (insert_path qs v [(''identifier'', s)]) ''identifier'' = Some s"
    by (simp add: wrapped_scalar_kept)
qed

text \<open>
  \<open><meta name="article" content="news">\<close> followed by
  \<open><meta property="article:section" content="World">\<close>: the scalar is kept under the
  field \<open>article\<close>; there is no field \<open>identifier\<close>.
  \<open><meta property="og:image" content="0">\<close> followed by
  \<open><meta property="og:image:width" content="640">\<close>: the scalar zero is not converted
  into a mapping, it is lost. Below the top level the test \<open>not ref.get(part)\<close> takes a
  zero or an empty string for a missing entry and puts an empty mapping in its place.
\<close>

theorem get_meta_data_identifier_counterexample:
  "get_meta_data latin1_str list_parser
     [meta_tag ''name'' ''article'' ''news'', meta_tag ''property'' ''article:section'' ''World'']
   = Inr [(''article'', MDict [(''article'', MStr ''news''), (''section'', MStr ''World'')])]
   \<and> get_meta_data latin1_str list_parser
       [meta_tag ''property'' ''og:image'' ''0'',
        meta_tag ''property'' ''og:image:width'' ''640'']
     = Inr [(''og'', MDict [(''image'', MDict [(''width'', MInt 640)])])]"
  by code_simp

theorem store_under_scalar_witness:
  "map_of (store [(''article'', MStr ''news'')] ''article:section'' (MStr ''World'')) ''article''
     = Some (MDict [(''article'', MStr ''news''), (''section'', MStr ''World'')])
   \<and> map_of [(''article'', MStr ''news''), (''section'', MStr ''World'')] ''article''
     = Some (MStr ''news'')
   \<and> lookup_path [''og'', ''image'']
        (MDict (store [(''og'', MDict [(''image'', MStr ''u'')])] ''og:image:width'' (MInt 640)))
     = Some (MDict [(''identifier'', MStr ''u''), (''width'', MInt 640)])
   \<and> map_of [(''identifier'', MStr ''u''), (''width'', MInt 640)] ''identifier''
     = Some (MStr ''u'')"
proof -
  have h1: "map_of [(''article'', MStr ''news'')] ''article'' = Some (MStr ''news'')
      \<and> is_scalar (MStr ''news'')
      \<and> split_when (\<lambda>c. c = CHR '':'') ''article:section'' = ''article'' # [''section'']
      \<and> [''section''] \<noteq> []"
    by code_simp
  have n1: "hd [''section''] \<noteq> ''article''"
    by code_simp
  have h2: "lookup_path (''og'' # [''image'']) (MDict [(''og'', MDict [(''image'', MStr ''u'')])])
        = Some (MStr ''u'')
      \<and> [''image''] \<noteq> [] \<and> is_scalar (MStr ''u'') \<and> truthy (MStr ''u'')
      \<and> split_when (\<lambda>c. c = CHR '':'') ''og:image:width'' = ''og'' # [''image''] @ [''width'']
      \<and> [''width''] \<noteq> []"
    by code_simp
  have n2: "hd [''width''] \<noteq> ''identifier''"
    by code_simp
  have e1: "insert_path [''section''] (MStr ''World'') [(''article'', MStr ''news'')]
            = [(''article'', MStr ''news''), (''section'', MStr ''World'')]"
    by code_simp
  have e2: "insert_path [''width''] (MInt 640) [(''identifier'', MStr ''u'')]
            = [(''identifier'', MStr ''u''), (''width'', MInt 640)]"
    by code_simp
  note c1 = store_under_scalar [of "[(''article'', MStr ''news'')]" "''article''" "MStr ''news''"
      "''article:section''" "[''section'']" "MStr ''World''", THEN conjunct1, THEN mp, OF h1]
  note c2 = store_under_scalar [of "[(''og'', MDict [(''image'', MStr ''u'')])]" "''og''"
      "MStr ''u''" "''og:image:width''" "[''width'']" "MInt 640" "[''image'']",
      THEN conjunct2, THEN mp, OF h2]
  note t1 = c1 [THEN conjunct1, unfolded e1]
  note t2 = c1 [THEN conjunct2, THEN conjunct2, THEN mp, OF n1, unfolded e1]
  note t3 = c2 [THEN conjunct1, unfolded e2]
  note t4 = c2 [THEN conjunct2, THEN conjunct2, THEN mp, OF n2, unfolded e2]
  from t1 t2 t3 t4 show ?thesis by (intro conjI)
qed

text \<open>
  C10, as the code has it. A tag whose key or value attribute is missing or empty is
  skipped. Otherwise both are stripped. A value that then consists of digits only, as
  \<open>str.isdigit\<close> has it, and that \<open>int\<close> converts is stored as that integer; a value that
  does not consist of digits only is stored as the stripped string; each is read at the
  path that its key names. Every string in the result of \<open>get_meta_data\<close> is
  whitespace-stripped. The test for emptiness comes before the stripping, so a value of
  whitespace only is not skipped.
\<close>

theorem meta_values_stored:
  "((meta_raw_key prop = None \<or> meta_raw_key prop = Some [] \<or> meta_raw_value prop = None
       \<or> meta_raw_value prop = Some [])
      \<longrightarrow> meta_step B data prop = Inr data)
   \<and> (meta_raw_key prop = Some k \<and> k \<noteq> [] \<and> meta_raw_value prop = Some v \<and> v \<noteq> []
       \<and> str_isdigit B (strip v) \<and> str_to_int B (strip v) = Inr n
      \<longrightarrow> meta_step B data prop = Inr (store data (strip k) (MInt n))
          \<and> lookup_path (split_when (\<lambda>c. c = CHR '':'') (strip k))
                (MDict (store data (strip k) (MInt n)))
              = Some (MInt n))
   \<and> (meta_raw_key prop = Some k \<and> k \<noteq> [] \<and> meta_raw_value prop = Some v \<and> v \<noteq> []
       \<and> \<not> str_isdigit B (strip v)
      \<longrightarrow> meta_step B data prop = Inr (store data (strip k) (MStr (strip v)))
          \<and> lookup_path (split_when (\<lambda>c. c = CHR '':'') (strip k))
                (MDict (store data (strip k) (MStr (strip v))))
              = Some (MStr (strip v)))
   \<and> (get_meta_data B P doc = Inr result \<longrightarrow> stripped_leaves (MDict result))"
proof (intro conjI impI)
  assume "meta_raw_key prop = None \<or> meta_raw_key prop = Some [] \<or> meta_raw_value prop = None
       \<or> meta_raw_value prop = Some []"
  then have "meta_key_value prop = None"
    by (auto simp: meta_key_value_def split: option.splits)
  then show "meta_step B data prop = Inr data"
    by (simp add: meta_step_def)
next
  assume a: "meta_raw_key prop = Some k \<and> k \<noteq> [] \<and> meta_raw_value prop = Some v \<and> v \<noteq> []
       \<and> str_isdigit B (strip v) \<and> str_to_int B (strip v) = Inr n"
  then have kv: "meta_key_value prop = Some (strip k, strip v)"
    by (simp add: meta_key_value_def)
  from a have "convert_value B (strip v) = Inr (MInt n)"
    by (simp add: convert_value_def)
  with kv show "meta_step B data prop = Inr (store data (strip k) (MInt n))"
    by (simp add: meta_step_def)
  show "lookup_path (split_when (\<lambda>c. c = CHR '':'') (strip k))
                (MDict (store data (strip k) (MInt n)))
              = Some (MInt n)"
    by (rule store_lookup)
next
  assume a: "meta_raw_key prop = Some k \<and> k \<noteq> [] \<and> meta_raw_value prop = Some v \<and> v \<noteq> []
       \<and> \<not> str_isdigit B (strip v)"
  then have kv: "meta_key_value prop = Some (strip k, strip v)"
    by (simp add: meta_key_value_def)
  from a have "convert_value B (strip v) = Inr (MStr (strip v))"
    by (simp add: convert_value_def)
  with kv show "meta_step B data prop = Inr (store data (strip k) (MStr (strip v)))"
    by (simp add: meta_step_def)
  show "lookup_path (split_when (\<lambda>c. c = CHR '':'') (strip k))
                (MDict (store data (strip k) (MStr (strip v))))
              = Some (MStr (strip v))"
    by (rule store_lookup)
next
  assume "get_meta_data B P doc = Inr result"
  then have "meta_loop B [] (css_select P doc ''meta'') = Inr result"
    by (simp add: get_meta_data_def)
  from meta_loop_leaves [OF this] show "stripped_leaves (MDict result)"
    by simp
qed

text \<open>
  \<open><meta name="robots" content=" ">\<close>: the value is empty after stripping, and the tag
  is not skipped. \<open><meta name="width" content=" 640 ">\<close>: the content does not consist
  of digits only, and the value stored is an integer, not the stripped string.
  \<open><meta name="power" content="&sup2;">\<close>, whose content is the superscript two: the
  content consists of digits only, as \<open>str.isdigit\<close> has it, and no integer is stored,
  for \<open>int\<close> raises \<open>ValueError\<close>.
\<close>

theorem get_meta_data_blank_value_counterexample:
  "get_meta_data latin1_str list_parser [meta_tag ''name'' ''robots'' '' '']
     = Inr [(''robots'', MStr [])]
   \<and> \<not> isdigit '' 640 ''
   \<and> get_meta_data latin1_str list_parser [meta_tag ''name'' ''width'' '' 640 '']
     = Inr [(''width'', MInt 640)]
   \<and> isdigit [CHR 0xB2]
   \<and> get_meta_data latin1_str list_parser [meta_tag ''name'' ''power'' [CHR 0xB2]]
     = Inl ValueError"
  by code_simp

theorem meta_values_stored_witness:
  "meta_step latin1_str [] (meta_tag ''name'' ''robots'' []) = Inr []
   \<and> meta_step latin1_str [] (meta_tag ''name'' ''width'' '' 640 '') = Inr [(''width'', MInt 640)]
   \<and> meta_step latin1_str [] (meta_tag ''name'' ''robots'' '' noindex '')
     = Inr [(''robots'', MStr ''noindex'')]
   \<and> stripped_leaves (MDict [(''width'', MInt 640), (''robots'', MStr ''noindex'')])"
proof -
  have h1: "meta_raw_key (meta_tag ''name'' ''robots'' []) = None
       \<or> meta_raw_key (meta_tag ''name'' ''robots'' []) = Some []
       \<or> meta_raw_value (meta_tag ''name'' ''robots'' []) = None
       \<or> meta_raw_value (meta_tag ''name'' ''robots'' []) = Some []"
    by code_simp
  have h2: "meta_raw_key (meta_tag ''name'' ''width'' '' 640 '') = Some ''width'' \<and> ''width'' \<noteq> []
       \<and> meta_raw_value (meta_tag ''name'' ''width'' '' 640 '') = Some '' 640 ''
       \<and> '' 640 '' \<noteq> []
       \<and> str_isdigit latin1_str (strip '' 640 '')
       \<and> str_to_int latin1_str (strip '' 640 '') = Inr 640"
    by code_simp
  have e2: "store [] (strip ''width'') (MInt 640) = [(''width'', MInt 640)]"
    by code_simp
  have h3: "meta_raw_key (meta_tag ''name'' ''robots'' '' noindex '') = Some ''robots''
       \<and> ''robots'' \<noteq> []
       \<and> meta_raw_value (meta_tag ''name'' ''robots'' '' noindex '') = Some '' noindex ''
       \<and> '' noindex '' \<noteq> [] \<and> \<not> str_isdigit latin1_str (strip '' noindex '')"
    by code_simp
  have e3: "store [] (strip ''robots'') (MStr (strip '' noindex ''))
            = [(''robots'', MStr ''noindex'')]"
    by code_simp
  have h4: "get_meta_data latin1_str list_parser
              [meta_tag ''name'' ''width'' '' 640 '', meta_tag ''name'' ''robots'' '' noindex '']
            = Inr [(''width'', MInt 640), (''robots'', MStr ''noindex'')]"
    by code_simp
  note t1 = meta_values_stored [of "meta_tag ''name'' ''robots'' []" latin1_str "[]",
      THEN conjunct1, THEN mp, OF h1]
  note t2 = meta_values_stored [of "meta_tag ''name'' ''width'' '' 640 ''" latin1_str "[]"
      "''width''" "'' 640 ''" 640, THEN conjunct2, THEN conjunct1, THEN mp, OF h2,
      THEN conjunct1, unfolded e2]
  note t3 = meta_values_stored [of "meta_tag ''name'' ''robots'' '' noindex ''" latin1_str "[]"
      "''robots''" "'' noindex ''", THEN conjunct2, THEN conjunct2, THEN conjunct1, THEN mp,
      OF h3, THEN conjunct1, unfolded e3]
  note t4 = meta_values_stored [of _ latin1_str _ _ _ _ list_parser
      "[meta_tag ''name'' ''width'' '' 640 '', meta_tag ''name'' ''robots'' '' noindex '']"
      "[(''width'', MInt 640), (''robots'', MStr ''noindex'')]",
      THEN conjunct2, THEN conjunct2, THEN conjunct2, THEN mp, OF h4]
  from t1 t2 t3 t4 show ?thesis by (intro conjI)
qed

text \<open>
  Where \<open>int\<close> does not convert a value that consists of digits only, its \<open>ValueError\<close>
  leaves \<open>get_meta_data\<close>: C10 as proved above says nothing of such a value. On the
  strings of this development these are the values with a superscript digit and the
  values of more than 4300 decimal digits.
\<close>

lemma meta_step_int_raises:
  "meta_raw_key prop = Some k \<Longrightarrow> k \<noteq> [] \<Longrightarrow> meta_raw_value prop = Some v \<Longrightarrow> v \<noteq> [] \<Longrightarrow>
   str_isdigit B (strip v) \<Longrightarrow> str_to_int B (strip v) = Inl e \<Longrightarrow> meta_step B data prop = Inl e"
  by (simp add: meta_step_def meta_key_value_def convert_value_def)

lemma py_int_limit:
  "py_int (replicate 4300 CHR ''1'') \<noteq> Inl ValueError
   \<and> py_int (replicate 4301 CHR ''1'') = Inl ValueError"
  by (simp add: py_int_def list_all_iff isdecimal_def)

section \<open>Properties of the title\<close>

lemma largest_piece_hint:
  "k < length ps \<Longrightarrow> hint_in_piece hint (strip (ps ! k))
   \<Longrightarrow> list_all (\<lambda>p. \<not> hint_in_piece hint (strip p)) (take k ps)
   \<Longrightarrow> largest_piece hint ps i l idx = i + k"
proof (induction ps arbitrary: k i l idx)
  case Nil
  then show ?case by simp
next
  case (Cons p ps)
  show ?case
  proof (cases k)
    case 0
    with Cons.prems show ?thesis by (simp add: Let_def)
  next
    case (Suc k')
    with Cons.prems have a: "k' < length ps" "hint_in_piece hint (strip (ps ! k'))"
      "list_all (\<lambda>p. \<not> hint_in_piece hint (strip p)) (take k' ps)"
      "\<not> hint_in_piece hint (strip p)"
      by simp_all
    from Cons.IH [OF a(1-3)] a(4) Suc show ?thesis by (simp add: Let_def)
  qed
qed

text \<open>
  C4, as the code has it. On the document with \<open><title>Foo - Bar News</title>\<close> and
  \<open><h1>Foo</h1>\<close>, \<open>get_title\<close> returns \<open>Bar News\<close>: the \<open>h1\<close> text of one word is
  discarded, the split has no hint and the longest piece wins. Where there is a hint, the
  first piece that contains the filtered hint wins outright: \<open>split_title\<close> returns it
  whatever the lengths of the pieces before it.
\<close>

theorem split_title_hint_wins:
  "get_title list_parser example_title_defines foo_doc = Inr ''Bar News''
   \<and> (hint0 \<noteq> [] \<and> k < length (splitter title_text)
       \<and> hint_in_piece (lower (title_filter hint0)) (strip (splitter title_text ! k))
       \<and> list_all (\<lambda>p. \<not> hint_in_piece (lower (title_filter hint0)) (strip p))
            (take k (splitter title_text))
      \<longrightarrow> split_title D title_text splitter hint0
          = Inr (strip (TITLE_REPLACEMENTS D (splitter title_text ! k))))"
proof (intro conjI impI)
  show "get_title list_parser example_title_defines foo_doc = Inr ''Bar News''"
    by code_simp
next
  assume a: "hint0 \<noteq> [] \<and> k < length (splitter title_text)
       \<and> hint_in_piece (lower (title_filter hint0)) (strip (splitter title_text ! k))
       \<and> list_all (\<lambda>p. \<not> hint_in_piece (lower (title_filter hint0)) (strip p))
            (take k (splitter title_text))"
  then have "largest_piece (lower (title_filter hint0)) (splitter title_text) 0 0 0 = 0 + k"
    by (intro largest_piece_hint) simp_all
  with a show "split_title D title_text splitter hint0
          = Inr (strip (TITLE_REPLACEMENTS D (splitter title_text ! k)))"
    by (simp add: split_title_def)
qed

text \<open>
  The claim's document, with the dash splitter splitting at the dash and at the dash
  between spaces: the title is \<open>Bar News\<close> either way, not \<open>Foo\<close>.
\<close>

theorem get_title_foo_counterexample:
  "longest_h1 [''Foo''] = []
   \<and> get_title list_parser example_title_defines foo_doc = Inr ''Bar News''
   \<and> get_title list_parser (example_title_defines \<lparr> DASH_SPLITTER := string_splitter '' - '' \<rparr>)
        foo_doc = Inr ''Bar News''"
  by code_simp

theorem split_title_hint_wins_witness:
  "split_title example_title_defines ''Bar News Network Today - Foo Is Here''
      (string_splitter ''-'') ''Foo Is Here'' = Inr ''Foo Is Here''
   \<and> get_title list_parser example_title_defines headline_doc = Inr ''Foo Is Here''"
proof -
  have h: "''Foo Is Here'' \<noteq> []
       \<and> 1 < length (string_splitter ''-'' ''Bar News Network Today - Foo Is Here'')
       \<and> hint_in_piece (lower (title_filter ''Foo Is Here''))
            (strip (string_splitter ''-'' ''Bar News Network Today - Foo Is Here'' ! 1))
       \<and> list_all (\<lambda>p. \<not> hint_in_piece (lower (title_filter ''Foo Is Here'')) (strip p))
            (take 1 (string_splitter ''-'' ''Bar News Network Today - Foo Is Here''))"
    by code_simp
  have e: "strip (TITLE_REPLACEMENTS example_title_defines
             (string_splitter ''-'' ''Bar News Network Today - Foo Is Here'' ! 1)) = ''Foo Is Here''"
    by code_simp
  have g: "get_title list_parser example_title_defines headline_doc = Inr ''Foo Is Here''"
    by code_simp
  note t = split_title_hint_wins [of "''Foo Is Here''" 1 "string_splitter ''-''"
      "''Bar News Network Today - Foo Is Here''" example_title_defines,
      THEN conjunct2, THEN mp, OF h, unfolded e]
  from t g show ?thesis by (rule conjI)
qed

section \<open>Properties of the canonical link\<close>

lemma chosen_meta_url_canonical:
  "getElementsByTag P doc (Some ''link'') (Some ''rel'') (Some ''canonical'') = l # ls
   \<Longrightarrow> getAttribute P l ''href'' = Some u \<Longrightarrow> u \<noteq> [] \<Longrightarrow> chosen_meta_url P doc = u"
  by (simp add: chosen_meta_url_def py_or_def)

lemma chosen_meta_url_og:
  "getElementsByTag P doc (Some ''link'') (Some ''rel'') (Some ''canonical'') = []
   \<Longrightarrow> chosen_meta_url P doc = get_meta_content P doc (attr_selector ''meta'' ''property'' ''og:url'')"
  by (simp add: chosen_meta_url_def py_or_def)

lemma pattern_here_self: "CHR 0x0A \<notin> set h \<Longrightarrow> pattern_here h (h @ s) = Some s"
  by (induction h) auto

lemma no_match_after:
  "(\<forall>k\<le>length s. host_here h (drop k s) = None) \<Longrightarrow> strip_hostname_in_meta_path h s = None"
proof (induction s)
  case Nil
  then show ?case by simp
next
  case (Cons c cs)
  have "\<forall>k\<le>length cs. host_here h (drop k cs) = None"
  proof (intro allI impI)
    fix k assume "k \<le> length cs"
    with Cons.prems have "host_here h (drop (Suc k) (c # cs)) = None" by (metis Suc_le_mono length_Cons)
    then show "host_here h (drop k cs) = None" by simp
  qed
  from Cons.IH [OF this] Cons.prems [rule_format, of 0] show ?case by auto
qed

lemma strip_hostname_last:
  "CHR 0x0A \<notin> set pre \<Longrightarrow> CHR 0x0A \<notin> set h \<Longrightarrow> CHR 0x0A \<notin> set rest
   \<Longrightarrow> (\<forall>k\<le>length (tl (h @ ''/'' @ rest)). host_here h (drop k (tl (h @ ''/'' @ rest))) = None)
   \<Longrightarrow> strip_hostname_in_meta_path h (pre @ h @ ''/'' @ rest) = Some rest"
proof (induction pre)
  case Nil
  have here: "host_here h (h @ ''/'' @ rest) = Some rest"
    using Nil.prems(2,3) by (auto simp: host_here_def pattern_here_self takeWhile_eq_all_conv)
  from no_match_after [OF Nil.prems(4)]
  have none: "strip_hostname_in_meta_path h (tl (h @ ''/'' @ rest)) = None" .
  obtain c cs where cs: "h @ ''/'' @ rest = c # cs" by (cases "h @ ''/'' @ rest") auto
  then have "c \<noteq> CHR 0x0A" using Nil.prems(2,3)
    by (cases h) auto
  with cs none here show ?case by simp
next
  case (Cons a pre)
  then show ?case by auto
qed

text \<open>
  The rule the code follows where the host name, read as a pattern, has no later match:
  a path that holds the host name and a slash is cut after them, and the rest is put
  together with the scheme and the host of the article's URL.
\<close>

lemma get_canonical_link_strips:
  assumes "chosen_meta_url P doc = u" "u \<noteq> []"
    and "hostname (urlparse U (strip u)) = None"
    and "hostname (urlparse U article_url) = Some h"
    and "path (urlparse U (strip u)) = pre @ h @ ''/'' @ rest"
    and "CHR 0x0A \<notin> set pre" "CHR 0x0A \<notin> set h" "CHR 0x0A \<notin> set rest"
    and "\<forall>k\<le>length (tl (h @ ''/'' @ rest)). host_here h (drop k (tl (h @ ''/'' @ rest))) = None"
  shows "get_canonical_link P U article_url doc
         = urlunparse U (scheme (urlparse U article_url)) (Some h) rest"
proof -
  from strip_hostname_last [OF assms(6-9)] assms(5)
  have "strip_hostname_in_meta_path h (path (urlparse U (strip u))) = Some rest"
    by simp
  with assms(1-4) show ?thesis
    by (simp add: get_canonical_link_def Let_def)
qed

text \<open>The example of the spec: the host name in the path is cut off.\<close>

lemma canonical_example:
  "get_canonical_link list_parser simple_url_lib ''https://example.com/news/x''
     [meta_tag ''property'' ''og:url'' ''example.com/article.html'']
   = ''https://example.com/article.html''"
  by code_simp

text \<open>
  C5. The claim has everything up to and including the article's host name cut off a
  path that holds it before a slash. On an article at \<open>https://t.co/x\<close> with the
  \<open>og:url\<close> value \<open>t.co/taco/a.html\<close> that is the path \<open>taco/a.html\<close>. The code puts
  the host name into its pattern without escaping it, the dot of \<open>t.co\<close> matches the
  \<open>a\<close> of \<open>taco\<close>, and the path is cut after \<open>taco/\<close>.
\<close>

theorem canonical_unescaped_hostname:
  "get_canonical_link list_parser simple_url_lib ''https://t.co/x''
     [meta_tag ''property'' ''og:url'' ''t.co/taco/a.html''] = ''https://t.co/a.html''"
  by code_simp

section \<open>Properties of the publishing date\<close>

lemma hd_insort_key:
  "hd (insort_key f x ys) = (if ys = [] \<or> f x \<le> f (hd ys) then x else hd ys)"
  by (cases ys) auto

lemma sort_key_nonempty: "xs \<noteq> [] \<Longrightarrow> sort_key f xs \<noteq> []"
  by (metis length_0_conv length_sort)

lemma first_best:
  fixes ms :: "('a \<times> int) list"
  shows "ms \<noteq> [] \<Longrightarrow>
     \<exists>i<length ms. hd (sort_key (\<lambda>m. - snd m) ms) = ms ! i
        \<and> (\<forall>j<length ms. snd (ms ! j) \<le> snd (ms ! i))
        \<and> (\<forall>j<i. snd (ms ! j) < snd (ms ! i))"
proof (induction ms)
  case Nil
  then show ?case by simp
next
  case (Cons x xs)
  show ?case
  proof (cases "xs = []")
    case True
    then show ?thesis by simp
  next
    case False
    from Cons.IH [OF False] obtain i where i: "i < length xs"
      "hd (sort_key (\<lambda>m. - snd m) xs) = xs ! i"
      "\<forall>j<length xs. snd (xs ! j) \<le> snd (xs ! i)"
      "\<forall>j<i. snd (xs ! j) < snd (xs ! i)" by blast
    have ne: "sort_key (\<lambda>m. - snd m) xs \<noteq> []" using False by (rule sort_key_nonempty)
    show ?thesis
    proof (cases "snd (xs ! i) \<le> snd x")
      case True
      with i(2) ne have h: "hd (sort_key (\<lambda>m. - snd m) (x # xs)) = x"
        by (simp add: hd_insort_key)
      have "\<forall>j<length (x # xs). snd ((x # xs) ! j) \<le> snd x"
        using i(3) True by (auto simp: nth_Cons split: nat.splits)
      with h show ?thesis by (intro exI [of _ 0]) simp
    next
      case False
      with i(2) ne have h: "hd (sort_key (\<lambda>m. - snd m) (x # xs)) = xs ! i"
        by (simp add: hd_insort_key)
      have a: "\<forall>j<length (x # xs). snd ((x # xs) ! j) \<le> snd (xs ! i)"
        using i(3) False by (auto simp: nth_Cons split: nat.splits)
      have b: "\<forall>j<Suc i. snd ((x # xs) ! j) < snd (xs ! i)"
        using i(4) False by (auto simp: nth_Cons split: nat.splits)
      from h a b i(1) show ?thesis by (intro exI [of _ "Suc i"]) simp
    qed
  qed
qed

lemma url_matches_score: "m \<in> set (url_matches E link) \<Longrightarrow> snd m = 10"
  by (auto simp: url_matches_def split: option.splits)

lemma item_date_score: "item_date E item = Inr ms \<Longrightarrow> m \<in> set ms \<Longrightarrow> snd m = 10"
  by (auto simp: item_date_def split: json.splits option.splits)

lemma graph_dates_score: "graph_dates E items = Inr ms \<Longrightarrow> m \<in> set ms \<Longrightarrow> snd m = 10"
  by (induction items arbitrary: ms)
     (auto simp: then_do_def split: sum.splits dest: item_date_score)

lemma yoast_dates_score: "yoast_dates E script = Inr ms \<Longrightarrow> m \<in> set ms \<Longrightarrow> snd m = 10"
  by (auto simp: yoast_dates_def then_do_def split: option.splits sum.splits
           dest: graph_dates_score)

lemma regex_dates_score: "regex_dates E script = Inr ms \<Longrightarrow> m \<in> set ms \<Longrightarrow> snd m = 9"
  by (auto simp: regex_dates_def split: option.splits)

lemma scripts_dates_score:
  "scripts_dates E tags = Inr ms \<Longrightarrow> m \<in> set ms \<Longrightarrow> snd m = 9 \<or> snd m = 10"
  by (induction tags arbitrary: ms)
     (auto simp: then_do_def script_dates_def split: sum.splits if_splits
           dest: yoast_dates_score regex_dates_score)

lemma meta_score_eq:
  "meta_score E known mt d
   = 6 + (if attrib_get mt ''name'' = Some (kt_value known) then 2 else 0)
       - (if today E < date_of E d then 2
          else if today E - date_of E d > 25 * 365 then 1 else 0)"
  by (simp add: meta_score_def Let_def)

lemma meta_score_le: "meta_score E known mt d \<le> 8"
  by (simp add: meta_score_eq)

lemma meta_dates_member:
  "m \<in> set (meta_dates E P doc) \<Longrightarrow>
   \<exists>known\<in>set (PUBLISH_DATE_TAGS E).
     \<exists>mt\<in>set (getElementsByTag P doc None (Some (kt_attribute known)) (Some (kt_value known))).
       parse_date_str E (getAttribute P mt (kt_content known)) = Some (fst m)
       \<and> snd m = meta_score E known mt (fst m)"
  unfolding meta_dates_def
  by (auto split: option.splits) (metis fst_conv snd_conv)

lemma date_matches_parts:
  "date_matches E P link doc = Inr ms \<Longrightarrow>
   \<exists>ss. scripts_dates E
          (getElementsByTag P doc (Some ''script'') (Some ''type'') (Some ''application/ld+json''))
          = Inr ss
        \<and> ms = url_matches E link @ ss @ meta_dates E P doc"
  by (auto simp: date_matches_def then_do_def split: sum.splits)

lemma date_matches_le:
  assumes "date_matches E P link doc = Inr ms" "m \<in> set ms"
  shows "snd m \<le> 10"
proof -
  from date_matches_parts [OF assms(1)] obtain ss where
    ss: "scripts_dates E
          (getElementsByTag P doc (Some ''script'') (Some ''type'') (Some ''application/ld+json''))
          = Inr ss" "ms = url_matches E link @ ss @ meta_dates E P doc" by blast
  from assms(2) ss(2) consider "m \<in> set (url_matches E link)" | "m \<in> set ss"
    | "m \<in> set (meta_dates E P doc)" by auto
  then show ?thesis
  proof cases
    case 1
    then show ?thesis by (simp add: url_matches_score)
  next
    case 2
    from scripts_dates_score [OF ss(1) this] show ?thesis by auto
  next
    case 3
    from meta_dates_member [OF this] obtain known mt
      where "snd m = meta_score E known mt (fst m)" by blast
    with meta_score_le [of E known mt "fst m"] show ?thesis by simp
  qed
qed

lemma get_publishing_date_hd:
  "date_matches E P link doc = Inr ms \<Longrightarrow>
   get_publishing_date E P link doc
   = Inr (if ms = [] then None else Some (fst (hd (sort_key (\<lambda>m. - snd m) ms))))"
  using sort_key_nonempty [of ms "\<lambda>m. - snd m"]
  by (cases "sort_key (\<lambda>m. - snd m) ms")
     (auto simp: get_publishing_date_def then_do_def)

lemma get_publishing_date_best:
  assumes "date_matches E P link doc = Inr ms" "ms \<noteq> []"
  shows "\<exists>i<length ms. get_publishing_date E P link doc = Inr (Some (fst (ms ! i)))
           \<and> (\<forall>j<length ms. snd (ms ! j) \<le> snd (ms ! i))
           \<and> (\<forall>j<i. snd (ms ! j) < snd (ms ! i))"
proof -
  from first_best [OF assms(2)] obtain i where i: "i < length ms"
    "hd (sort_key (\<lambda>m. - snd m) ms) = ms ! i"
    "\<forall>j<length ms. snd (ms ! j) \<le> snd (ms ! i)"
    "\<forall>j<i. snd (ms ! j) < snd (ms ! i)" by blast
  from get_publishing_date_hd [OF assms(1)] assms(2) i(2)
  have "get_publishing_date E P link doc = Inr (Some (fst (ms ! i)))" by simp
  with i(1,3,4) show ?thesis by blast
qed

lemma url_date_wins:
  assumes "strict_date_search E link = Some ds" "ds \<noteq> []" "date_parser E ds = Some d0"
    and "scripts_dates E
          (getElementsByTag P doc (Some ''script'') (Some ''type'') (Some ''application/ld+json''))
          = Inr ss"
  shows "get_publishing_date E P link doc = Inr (Some d0)"
proof -
  let ?ms = "(d0, 10) # ss @ meta_dates E P doc"
  from assms(1-3) have u: "url_matches E link = [(d0, 10)]"
    by (simp add: url_matches_def parse_date_str_def)
  with assms(4) have dm: "date_matches E P link doc = Inr ?ms"
    by (simp add: date_matches_def then_do_def)
  from get_publishing_date_best [OF dm] obtain i where i: "i < length ?ms"
    "get_publishing_date E P link doc = Inr (Some (fst (?ms ! i)))"
    "\<forall>j<i. snd (?ms ! j) < snd (?ms ! i)" by blast
  have "snd (?ms ! i) \<le> 10"
    using date_matches_le [OF dm, of "?ms ! i"] i(1) nth_mem [OF i(1)] by blast
  with i(3) have "i = 0"
    by (cases i) auto
  with i(2) show ?thesis by simp
qed

lemma url_matches_found:
  "strict_date_search E link = Some ds \<Longrightarrow> ds \<noteq> [] \<Longrightarrow> date_parser E ds = Some d0 \<Longrightarrow>
   url_matches E link = [(d0, 10)]"
  by (simp add: url_matches_def parse_date_str_def)

lemma item_date_found:
  "map_of kvs ''datePublished'' = Some (JStr s) \<Longrightarrow> s \<noteq> [] \<Longrightarrow> date_parser E s = Some d \<Longrightarrow>
   item_date E (JObj kvs) = Inr [(d, 10)]"
  by (simp add: item_date_def parse_date_str_def)

lemma item_date_nothing:
  assumes "(\<forall>s'. map_of ikvs ''datePublished'' \<noteq> Some (JStr s'))
           \<or> (map_of ikvs ''datePublished'' = Some (JStr s) \<and> (s = [] \<or> date_parser E s = None))"
  shows "item_date E (JObj ikvs) = Inr []"
  using assms
  by (auto simp: item_date_def parse_date_str_def split: option.splits json.splits)

lemma graph_dates_concat:
  "map (item_date E) items = map Inr iss \<Longrightarrow> graph_dates E items = Inr (concat iss)"
  by (induction items arbitrary: iss) (auto simp: then_do_def)

lemma yoast_graph_collected:
  assumes "str_in ''yoast-schema-graph''
             (case attrib_get script ''class'' of None \<Rightarrow> [] | Some c \<Rightarrow> c)"
    and "elem_text script = Some t" "json_loads E t = Some (JObj kvs)"
    and "(case map_of kvs ''@graph'' of None \<Rightarrow> JArr [] | Some g \<Rightarrow> g) = JArr items"
    and "map (item_date E) items = map Inr iss"
  shows "script_dates E script = Inr (concat iss)"
  using assms
  by (simp add: script_dates_def yoast_dates_def graph_of_def iterate_def then_do_def
        graph_dates_concat)

lemma yoast_not_loaded:
  assumes "str_in ''yoast-schema-graph''
             (case attrib_get script ''class'' of None \<Rightarrow> [] | Some c \<Rightarrow> c)"
    and "(case elem_text script of None \<Rightarrow> None | Some t \<Rightarrow> json_loads E t) = None"
  shows "script_dates E script = Inr []"
  using assms by (simp add: script_dates_def yoast_dates_def)

lemma search_nonempty: "search_date_published t = Some s \<Longrightarrow> s \<noteq> []"
  by (induction t)
     (auto simp: date_published_here_def split: option.splits list.splits if_splits)

lemma regex_collected:
  assumes "\<not> str_in ''yoast-schema-graph''
             (case attrib_get script ''class'' of None \<Rightarrow> [] | Some c \<Rightarrow> c)"
    and "elem_text script = Some t" "search_date_published t = Some s"
    and "date_parser E s = Some d"
  shows "script_dates E script = Inr [(d, 9)]"
  using assms search_nonempty [OF assms(3)]
  by (simp add: script_dates_def regex_dates_def parse_date_str_def)

lemma regex_nothing:
  assumes "\<not> str_in ''yoast-schema-graph''
             (case attrib_get script ''class'' of None \<Rightarrow> [] | Some c \<Rightarrow> c)"
    and "elem_text script = Some t"
    and "search_date_published t = None
         \<or> (search_date_published t = Some s \<and> date_parser E s = None)"
  shows "script_dates E script = Inr []"
  using assms
  by (auto simp: script_dates_def regex_dates_def parse_date_str_def)

lemma search_leftmost:
  "date_published_here u = Some g \<Longrightarrow>
   \<forall>k<length pre. date_published_here (drop k (pre @ u)) = None \<Longrightarrow>
   search_date_published (pre @ u) = Some g"
proof (induction pre)
  case Nil
  then show ?case by (cases u) (auto simp: date_published_here_def)
next
  case (Cons c pre)
  from Cons.prems(2) have here: "date_published_here (c # pre @ u) = None"
    by (auto dest: spec [of _ 0])
  have "\<forall>k<length pre. date_published_here (drop k (pre @ u)) = None"
  proof (intro allI impI)
    fix k assume "k < length pre"
    then have "Suc k < length (c # pre)" by simp
    with Cons.prems(2) have "date_published_here (drop (Suc k) ((c # pre) @ u)) = None"
      by blast
    then show "date_published_here (drop k (pre @ u)) = None" by simp
  qed
  from Cons.IH [OF Cons.prems(1) this] here show ?case by simp
qed

lemma takeWhile_run: "list_all P v \<Longrightarrow> \<not> P q \<Longrightarrow> takeWhile P (v @ q # r) = v"
  by (induction v) auto

lemma dropWhile_run: "list_all P v \<Longrightarrow> \<not> P q \<Longrightarrow> dropWhile P (v @ q # r) = q # r"
  by (induction v) auto

lemma quote_no_space: "is_quote q \<Longrightarrow> \<not> isspace q"
  by (auto simp: is_quote_def isspace_def Let_def)

lemma colon_no_space: "\<not> isspace CHR '':''"
  by (simp add: isspace_def Let_def)

lemma skip_space_opt:
  "length sp \<le> 1 \<Longrightarrow> list_all isspace sp \<Longrightarrow> \<not> isspace c \<Longrightarrow> skip_space (sp @ c # r) = c # r"
  by (cases sp) (auto simp: skip_space_def)

lemma date_published_here_pattern:
  assumes "is_quote q1" "is_quote q2" "is_quote q3" "is_quote q4"
    and "length sp1 \<le> 1" "list_all isspace sp1" "length sp2 \<le> 1" "list_all isspace sp2"
    and "v \<noteq> []" "list_all (\<lambda>c. \<not> is_quote c) v"
  shows "date_published_here
           (q1 # ''datePublished'' @ q2 # sp1 @ CHR '':'' # sp2 @ q3 # v @ q4 # post)
         = Some v"
proof -
  have s1: "skip_space (sp1 @ CHR '':'' # sp2 @ q3 # v @ q4 # post)
            = CHR '':'' # sp2 @ q3 # v @ q4 # post"
    using assms(5,6) colon_no_space by (rule skip_space_opt)
  have s2: "skip_space (sp2 @ q3 # v @ q4 # post) = q3 # v @ q4 # post"
    using assms(7,8) quote_no_space [OF assms(3)] by (rule skip_space_opt)
  have t: "takeWhile (\<lambda>c. \<not> is_quote c) (v @ q4 # post) = v"
    using assms(10,4) by (simp add: takeWhile_run)
  have d: "dropWhile (\<lambda>c. \<not> is_quote c) (v @ q4 # post) = q4 # post"
    using assms(10,4) by (simp add: dropWhile_run)
  from assms(1,2,3,4,9) s1 s2 t d show ?thesis
    by (simp add: date_published_here_def startswith_def)
qed

lemma meta_dates_collected:
  assumes "known \<in> set (PUBLISH_DATE_TAGS E)"
    and "mt \<in> set (getElementsByTag P doc None (Some (kt_attribute known))
                     (Some (kt_value known)))"
    and "parse_date_str E (getAttribute P mt (kt_content known)) = Some d"
  shows "(d, meta_score E known mt d) \<in> set (meta_dates E P doc)"
  unfolding meta_dates_def using assms by (auto intro!: bexI [of _ known] bexI [of _ mt])

lemma date_matches_collected:
  "scripts_dates E
     (getElementsByTag P doc (Some ''script'') (Some ''type'') (Some ''application/ld+json''))
   = Inr ss \<Longrightarrow>
   date_matches E P link doc = Inr (url_matches E link @ ss @ meta_dates E P doc)"
  by (simp add: date_matches_def then_do_def)

lemma scripts_dates_concat:
  "map (script_dates E) tags = map Inr mss \<Longrightarrow> scripts_dates E tags = Inr (concat mss)"
  by (induction tags arbitrary: mss) (auto simp: then_do_def)

lemma script_dates_score:
  "script_dates E script = Inr rs \<Longrightarrow> m \<in> set rs \<Longrightarrow>
   snd m = (if str_in ''yoast-schema-graph''
                 (case attrib_get script ''class'' of None \<Rightarrow> [] | Some c \<Rightarrow> c)
            then 10 else 9)"
  by (auto simp: script_dates_def split: if_splits
           dest: yoast_dates_score regex_dates_score)

lemma meta_dates_iff:
  "(m \<in> set (meta_dates E P doc))
   = (\<exists>known\<in>set (PUBLISH_DATE_TAGS E).
        \<exists>mt\<in>set (getElementsByTag P doc None (Some (kt_attribute known))
                    (Some (kt_value known))).
          parse_date_str E (getAttribute P mt (kt_content known)) = Some (fst m)
          \<and> snd m = meta_score E known mt (fst m))"
proof
  assume "m \<in> set (meta_dates E P doc)"
  then show "\<exists>known\<in>set (PUBLISH_DATE_TAGS E).
        \<exists>mt\<in>set (getElementsByTag P doc None (Some (kt_attribute known))
                    (Some (kt_value known))).
          parse_date_str E (getAttribute P mt (kt_content known)) = Some (fst m)
          \<and> snd m = meta_score E known mt (fst m)"
    by (rule meta_dates_member)
next
  assume "\<exists>known\<in>set (PUBLISH_DATE_TAGS E).
        \<exists>mt\<in>set (getElementsByTag P doc None (Some (kt_attribute known))
                    (Some (kt_value known))).
          parse_date_str E (getAttribute P mt (kt_content known)) = Some (fst m)
          \<and> snd m = meta_score E known mt (fst m)"
  then obtain known mt where k: "known \<in> set (PUBLISH_DATE_TAGS E)"
    "mt \<in> set (getElementsByTag P doc None (Some (kt_attribute known)) (Some (kt_value known)))"
    "parse_date_str E (getAttribute P mt (kt_content known)) = Some (fst m)"
    "snd m = meta_score E known mt (fst m)" by blast
  from meta_dates_collected [OF k(1,2,3)] k(4) show "m \<in> set (meta_dates E P doc)"
    by (cases m) simp
qed

lemma ordinal_examples:
  "ordinal 2023 5 10 = 738650 \<and> ordinal 2099 1 1 = 766280 \<and> ordinal 2026 11 4 = 739924
   \<and> ordinal 2021 3 4 = 737853 \<and> ordinal 2001 11 8 = 730797 \<and> ordinal 1990 1 1 = 726468"
  by code_simp

text \<open>
  C1, as the code has it. The candidates of \<open>get_publishing_date\<close> are collected in this
  order: the date that the strict pattern finds in the text of the URL, with the score
  10; the dates of the JSON-LD scripts in document order; the dates of the known meta
  tags, in the order of the table and of the query. A script of the class
  \<open>yoast-schema-graph\<close> whose text loads as an object gives, with the score 10, the
  \<open>datePublished\<close> of every object of its \<open>@graph\<close> list that is a text the date parser
  reads, in the order of the list (no \<open>@graph\<close> is the empty list), and it gives nothing
  when its text does not load. Any other JSON-LD script with a text gives, with the
  score 9, the \<open>datePublished\<close> of the leftmost match of the pattern in the text, where
  the date parser reads it, and nothing otherwise. A meta tag scores 6, 2 more when its
  \<open>name\<close> attribute equals the expected value, 2 less when its date lies after the
  current date and otherwise 1 less when it is more than 25 times 365 days old. Where
  the JSON-LD scripts raise no exception, the date returned is that of the first
  candidate with the highest score, and there is none with no candidate; a date of the
  URL that parses is then returned whatever the meta tags hold, as in the example of the
  URL with \<open>/2023/05/10/\<close> and the meta tag of 2099.
\<close>

theorem get_publishing_date_scored:
  "(date_matches E P link doc = Inr ms \<and> ms \<noteq> [] \<longrightarrow>
      (\<exists>i<length ms. get_publishing_date E P link doc = Inr (Some (fst (ms ! i)))
          \<and> (\<forall>j<length ms. snd (ms ! j) \<le> snd (ms ! i))
          \<and> (\<forall>j<i. snd (ms ! j) < snd (ms ! i))))
   \<and> (date_matches E P link doc = Inr [] \<longrightarrow> get_publishing_date E P link doc = Inr None)
   \<and> (scripts_dates E
          (getElementsByTag P doc (Some ''script'') (Some ''type'')
               (Some ''application/ld+json'')) = Inr ss
      \<longrightarrow> date_matches E P link doc = Inr (url_matches E link @ ss @ meta_dates E P doc))
   \<and> (strict_date_search E link = Some ds \<and> ds \<noteq> [] \<and> date_parser E ds = Some d0
      \<longrightarrow> url_matches E link = [(d0, 10)])
   \<and> (\<forall>m\<in>set (url_matches E link). snd m = 10)
   \<and> (map (script_dates E) tags = map Inr mss \<longrightarrow> scripts_dates E tags = Inr (concat mss))
   \<and> (str_in ''yoast-schema-graph''
          (case attrib_get script ''class'' of None \<Rightarrow> [] | Some c \<Rightarrow> c)
       \<and> elem_text script = Some t \<and> json_loads E t = Some (JObj kvs)
       \<and> (case map_of kvs ''@graph'' of None \<Rightarrow> JArr [] | Some g \<Rightarrow> g) = JArr items
       \<and> map (item_date E) items = map Inr iss
      \<longrightarrow> script_dates E script = Inr (concat iss))
   \<and> (map_of ikvs ''datePublished'' = Some (JStr s) \<and> s \<noteq> [] \<and> date_parser E s = Some d
      \<longrightarrow> item_date E (JObj ikvs) = Inr [(d, 10)])
   \<and> ((\<forall>s'. map_of ikvs ''datePublished'' \<noteq> Some (JStr s'))
       \<or> (map_of ikvs ''datePublished'' = Some (JStr s) \<and> (s = [] \<or> date_parser E s = None))
      \<longrightarrow> item_date E (JObj ikvs) = Inr [])
   \<and> (str_in ''yoast-schema-graph''
          (case attrib_get script ''class'' of None \<Rightarrow> [] | Some c \<Rightarrow> c)
       \<and> (case elem_text script of None \<Rightarrow> None | Some t \<Rightarrow> json_loads E t) = None
      \<longrightarrow> script_dates E script = Inr [])
   \<and> (\<not> str_in ''yoast-schema-graph''
          (case attrib_get script ''class'' of None \<Rightarrow> [] | Some c \<Rightarrow> c)
       \<and> elem_text script = Some t \<and> search_date_published t = Some s
       \<and> date_parser E s = Some d
      \<longrightarrow> script_dates E script = Inr [(d, 9)])
   \<and> (\<not> str_in ''yoast-schema-graph''
          (case attrib_get script ''class'' of None \<Rightarrow> [] | Some c \<Rightarrow> c)
       \<and> elem_text script = Some t
       \<and> (search_date_published t = None
          \<or> (search_date_published t = Some s \<and> date_parser E s = None))
      \<longrightarrow> script_dates E script = Inr [])
   \<and> (is_quote q1 \<and> is_quote q2 \<and> is_quote q3 \<and> is_quote q4
       \<and> length sp1 \<le> 1 \<and> list_all isspace sp1 \<and> length sp2 \<le> 1 \<and> list_all isspace sp2
       \<and> v \<noteq> [] \<and> list_all (\<lambda>c. \<not> is_quote c) v
      \<longrightarrow> date_published_here
            (q1 # ''datePublished'' @ q2 # sp1 @ CHR '':'' # sp2 @ q3 # v @ q4 # post)
          = Some v)
   \<and> (date_published_here u = Some g
       \<and> (\<forall>k<length pre. date_published_here (drop k (pre @ u)) = None)
      \<longrightarrow> search_date_published (pre @ u) = Some g)
   \<and> (script_dates E script = Inr rs \<longrightarrow>
        (\<forall>m\<in>set rs. snd m = (if str_in ''yoast-schema-graph''
                    (case attrib_get script ''class'' of None \<Rightarrow> [] | Some c \<Rightarrow> c) then 10 else 9)))
   \<and> ((m \<in> set (meta_dates E P doc))
       = (\<exists>known\<in>set (PUBLISH_DATE_TAGS E).
            \<exists>mt\<in>set (getElementsByTag P doc None (Some (kt_attribute known))
                        (Some (kt_value known))).
              parse_date_str E (getAttribute P mt (kt_content known)) = Some (fst m)
              \<and> snd m = meta_score E known mt (fst m)))
   \<and> (meta_dates E P doc
       = concat (map (\<lambda>known.
           concat (map (\<lambda>mt.
              (case parse_date_str E (getAttribute P mt (kt_content known)) of
                 None \<Rightarrow> []
               | Some d \<Rightarrow> [(d, meta_score E known mt d)]))
             (getElementsByTag P doc None (Some (kt_attribute known))
                (Some (kt_value known)))))
          (PUBLISH_DATE_TAGS E)))
   \<and> (meta_score E known mt d
       = 6 + (if attrib_get mt ''name'' = Some (kt_value known) then 2 else 0)
           - (if today E < date_of E d then 2
              else if today E - date_of E d > 25 * 365 then 1 else 0))
   \<and> (strict_date_search E link = Some ds \<and> ds \<noteq> [] \<and> date_parser E ds = Some d0
       \<and> scripts_dates E
            (getElementsByTag P doc (Some ''script'') (Some ''type'')
                 (Some ''application/ld+json'')) = Inr ss
      \<longrightarrow> get_publishing_date E P link doc = Inr (Some d0))"
proof (intro conjI)
  show "date_matches E P link doc = Inr ms \<and> ms \<noteq> [] \<longrightarrow>
      (\<exists>i<length ms. get_publishing_date E P link doc = Inr (Some (fst (ms ! i)))
          \<and> (\<forall>j<length ms. snd (ms ! j) \<le> snd (ms ! i))
          \<and> (\<forall>j<i. snd (ms ! j) < snd (ms ! i)))"
    by (intro impI, elim conjE) (rule get_publishing_date_best)
  show "date_matches E P link doc = Inr [] \<longrightarrow> get_publishing_date E P link doc = Inr None"
    by (simp add: get_publishing_date_hd)
  show "scripts_dates E
          (getElementsByTag P doc (Some ''script'') (Some ''type'')
               (Some ''application/ld+json'')) = Inr ss
      \<longrightarrow> date_matches E P link doc = Inr (url_matches E link @ ss @ meta_dates E P doc)"
    by (intro impI) (rule date_matches_collected)
  show "strict_date_search E link = Some ds \<and> ds \<noteq> [] \<and> date_parser E ds = Some d0
      \<longrightarrow> url_matches E link = [(d0, 10)]"
    by (intro impI, elim conjE) (rule url_matches_found)
  show "\<forall>m\<in>set (url_matches E link). snd m = 10"
    by (intro ballI) (rule url_matches_score)
  show "map (script_dates E) tags = map Inr mss \<longrightarrow> scripts_dates E tags = Inr (concat mss)"
    by (intro impI) (rule scripts_dates_concat)
  show "str_in ''yoast-schema-graph''
          (case attrib_get script ''class'' of None \<Rightarrow> [] | Some c \<Rightarrow> c)
       \<and> elem_text script = Some t \<and> json_loads E t = Some (JObj kvs)
       \<and> (case map_of kvs ''@graph'' of None \<Rightarrow> JArr [] | Some g \<Rightarrow> g) = JArr items
       \<and> map (item_date E) items = map Inr iss
      \<longrightarrow> script_dates E script = Inr (concat iss)"
    by (intro impI, elim conjE) (rule yoast_graph_collected)
  show "map_of ikvs ''datePublished'' = Some (JStr s) \<and> s \<noteq> [] \<and> date_parser E s = Some d
      \<longrightarrow> item_date E (JObj ikvs) = Inr [(d, 10)]"
    by (intro impI, elim conjE) (rule item_date_found)
  show "(\<forall>s'. map_of ikvs ''datePublished'' \<noteq> Some (JStr s'))
       \<or> (map_of ikvs ''datePublished'' = Some (JStr s) \<and> (s = [] \<or> date_parser E s = None))
      \<longrightarrow> item_date E (JObj ikvs) = Inr []"
    by (intro impI) (rule item_date_nothing)
  show "str_in ''yoast-schema-graph''
          (case attrib_get script ''class'' of None \<Rightarrow> [] | Some c \<Rightarrow> c)
       \<and> (case elem_text script of None \<Rightarrow> None | Some t \<Rightarrow> json_loads E t) = None
      \<longrightarrow> script_dates E script = Inr []"
    by (intro impI, elim conjE) (rule yoast_not_loaded)
  show "\<not> str_in ''yoast-schema-graph''
          (case attrib_get script ''class'' of None \<Rightarrow> [] | Some c \<Rightarrow> c)
       \<and> elem_text script = Some t \<and> search_date_published t = Some s
       \<and> date_parser E s = Some d
      \<longrightarrow> script_dates E script = Inr [(d, 9)]"
    by (intro impI, elim conjE) (rule regex_collected)
  show "\<not> str_in ''yoast-schema-graph''
          (case attrib_get script ''class'' of None \<Rightarrow> [] | Some c \<Rightarrow> c)
       \<and> elem_text script = Some t
       \<and> (search_date_published t = None
          \<or> (search_date_published t = Some s \<and> date_parser E s = None))
      \<longrightarrow> script_dates E script = Inr []"
    by (intro impI, elim conjE) (rule regex_nothing)
  show "is_quote q1 \<and> is_quote q2 \<and> is_quote q3 \<and> is_quote q4
       \<and> length sp1 \<le> 1 \<and> list_all isspace sp1 \<and> length sp2 \<le> 1 \<and> list_all isspace sp2
       \<and> v \<noteq> [] \<and> list_all (\<lambda>c. \<not> is_quote c) v
      \<longrightarrow> date_published_here
            (q1 # ''datePublished'' @ q2 # sp1 @ CHR '':'' # sp2 @ q3 # v @ q4 # post)
          = Some v"
    by (intro impI, elim conjE) (rule date_published_here_pattern)
  show "date_published_here u = Some g
       \<and> (\<forall>k<length pre. date_published_here (drop k (pre @ u)) = None)
      \<longrightarrow> search_date_published (pre @ u) = Some g"
    by (intro impI, elim conjE) (rule search_leftmost)
  show "script_dates E script = Inr rs \<longrightarrow>
        (\<forall>m\<in>set rs. snd m = (if str_in ''yoast-schema-graph''
                    (case attrib_get script ''class'' of None \<Rightarrow> [] | Some c \<Rightarrow> c) then 10 else 9))"
    by (intro impI ballI) (rule script_dates_score)
  show "(m \<in> set (meta_dates E P doc))
       = (\<exists>known\<in>set (PUBLISH_DATE_TAGS E).
            \<exists>mt\<in>set (getElementsByTag P doc None (Some (kt_attribute known))
                        (Some (kt_value known))).
              parse_date_str E (getAttribute P mt (kt_content known)) = Some (fst m)
              \<and> snd m = meta_score E known mt (fst m))"
    by (rule meta_dates_iff)
  show "meta_dates E P doc
       = concat (map (\<lambda>known.
           concat (map (\<lambda>mt.
              (case parse_date_str E (getAttribute P mt (kt_content known)) of
                 None \<Rightarrow> []
               | Some d \<Rightarrow> [(d, meta_score E known mt d)]))
             (getElementsByTag P doc None (Some (kt_attribute known))
                (Some (kt_value known)))))
          (PUBLISH_DATE_TAGS E))"
    by (simp add: meta_dates_def)
  show "meta_score E known mt d
       = 6 + (if attrib_get mt ''name'' = Some (kt_value known) then 2 else 0)
           - (if today E < date_of E d then 2
              else if today E - date_of E d > 25 * 365 then 1 else 0)"
    by (rule meta_score_eq)
  show "strict_date_search E link = Some ds \<and> ds \<noteq> [] \<and> date_parser E ds = Some d0
       \<and> scripts_dates E
            (getElementsByTag P doc (Some ''script'') (Some ''type'')
                 (Some ''application/ld+json'')) = Inr ss
      \<longrightarrow> get_publishing_date E P link doc = Inr (Some d0)"
    by (intro impI, elim conjE) (rule url_date_wins)
qed

text \<open>
  Four inputs at which the claim does not hold as stated. The URL and the meta tag of
  the example with one more script, \<open><script type="application/ld+json"></script>\<close>:
  the pattern search raises \<open>TypeError\<close> on the script without text, and no date is
  returned. A URL whose path is \<open>/story\<close> and whose query holds the date: the date is
  found, for the pattern is searched in the whole URL. A script of the yoast class whose
  text is no JSON: the pattern would find its \<open>datePublished\<close>, but no candidate is
  collected, for the pattern is not tried on a script of that class. A meta tag of
  2001-11-08 on 2026-11-04: the date is younger than 25 years and older than 25 times
  365 days, and the tag scores 5.
\<close>

theorem get_publishing_date_counterexample:
  "get_publishing_date example_date_env list_parser ''https://example.com/2023/05/10/story''
     (empty_script # dated_doc) = Inl TypeError
   \<and> path (simple_urlparse ''https://example.com/story?d=/2023/05/10/'') = ''/story''
   \<and> date_matches example_date_env list_parser ''https://example.com/story?d=/2023/05/10/'' []
     = Inr [(ordinal 2023 5 10, 10)]
   \<and> search_date_published broken_text = Some ''2021-03-04''
   \<and> date_matches example_date_env list_parser ''https://example.com/story''
       [script_element ''yoast-schema-graph'' broken_text] = Inr []
   \<and> today example_date_env = ordinal 2026 11 4
   \<and> ordinal 2001 11 4 < ordinal 2001 11 8
   \<and> date_matches example_date_env list_parser ''https://example.com/story''
       [meta_tag ''property'' ''article:published_time'' ''2001-11-08'']
     = Inr [(ordinal 2001 11 8, 5)]"
  by code_simp

theorem get_publishing_date_scored_witness:
  "get_publishing_date example_date_env list_parser ''https://example.com/2023/05/10/story''
     dated_doc = Inr (Some (ordinal 2023 5 10))
   \<and> date_matches example_date_env list_parser ''https://example.com/2023/05/10/story'' dated_doc
     = Inr [(ordinal 2023 5 10, 10), (ordinal 2099 1 1, 4)]
   \<and> script_dates example_date_env (script_element ''yoast-schema-graph'' graph_text)
     = Inr [(ordinal 2021 3 4, 10)]
   \<and> script_dates example_date_env (script_element ''other'' jsonld_text)
     = Inr [(ordinal 2021 3 4, 9)]
   \<and> scripts_dates example_date_env
       [script_element ''yoast-schema-graph'' graph_text, script_element ''other'' jsonld_text]
     = Inr [(ordinal 2021 3 4, 10), (ordinal 2021 3 4, 9)]"
proof -
  have h1: "strict_date_search example_date_env ''https://example.com/2023/05/10/story''
             = Some ''/2023/05/10/''
       \<and> ''/2023/05/10/'' \<noteq> []
       \<and> date_parser example_date_env ''/2023/05/10/'' = Some (ordinal 2023 5 10)
       \<and> scripts_dates example_date_env
            (getElementsByTag list_parser dated_doc (Some ''script'') (Some ''type'')
               (Some ''application/ld+json'')) = Inr []"
    by code_simp
  have m: "date_matches example_date_env list_parser ''https://example.com/2023/05/10/story''
             dated_doc = Inr [(ordinal 2023 5 10, 10), (ordinal 2099 1 1, 4)]"
    by code_simp
  have h2: "str_in ''yoast-schema-graph''
          (case attrib_get (script_element ''yoast-schema-graph'' graph_text) ''class'' of
             None \<Rightarrow> [] | Some c \<Rightarrow> c)
       \<and> elem_text (script_element ''yoast-schema-graph'' graph_text) = Some graph_text
       \<and> json_loads example_date_env graph_text
         = Some (JObj [(''@graph'',
                   JArr [JObj [(''@type'', JStr ''WebPage''),
                               (''datePublished'', JStr ''2021-03-04'')]])])
       \<and> (case map_of [(''@graph'',
                         JArr [JObj [(''@type'', JStr ''WebPage''),
                                     (''datePublished'', JStr ''2021-03-04'')]])] ''@graph'' of
            None \<Rightarrow> JArr [] | Some g \<Rightarrow> g)
         = JArr [JObj [(''@type'', JStr ''WebPage''),
                       (''datePublished'', JStr ''2021-03-04'')]]
       \<and> map (item_date example_date_env)
           [JObj [(''@type'', JStr ''WebPage''), (''datePublished'', JStr ''2021-03-04'')]]
         = map Inr [[(ordinal 2021 3 4, 10)]]"
    by code_simp
  have h3: "\<not> str_in ''yoast-schema-graph''
          (case attrib_get (script_element ''other'' jsonld_text) ''class'' of
             None \<Rightarrow> [] | Some c \<Rightarrow> c)
       \<and> elem_text (script_element ''other'' jsonld_text) = Some jsonld_text
       \<and> search_date_published jsonld_text = Some ''2021-03-04''
       \<and> date_parser example_date_env ''2021-03-04'' = Some (ordinal 2021 3 4)"
    by code_simp
  have h4: "map (script_dates example_date_env)
              [script_element ''yoast-schema-graph'' graph_text,
               script_element ''other'' jsonld_text]
            = map Inr [[(ordinal 2021 3 4, 10)], [(ordinal 2021 3 4, 9)]]"
    by code_simp
  have e2: "concat [[(ordinal 2021 3 4, 10::int)]] = [(ordinal 2021 3 4, 10)]"
    by simp
  have e4: "concat [[(ordinal 2021 3 4, 10::int)], [(ordinal 2021 3 4, 9)]]
            = [(ordinal 2021 3 4, 10), (ordinal 2021 3 4, 9)]"
    by simp
  note t1 = get_publishing_date_scored [where E = example_date_env and P = list_parser
      and link = "''https://example.com/2023/05/10/story''" and doc = dated_doc
      and ds = "''/2023/05/10/''" and ?d0.0 = "ordinal 2023 5 10" and ss = "[]",
      THEN conjunct2, THEN conjunct2, THEN conjunct2, THEN conjunct2, THEN conjunct2,
      THEN conjunct2, THEN conjunct2, THEN conjunct2, THEN conjunct2, THEN conjunct2,
      THEN conjunct2, THEN conjunct2, THEN conjunct2, THEN conjunct2, THEN conjunct2,
      THEN conjunct2, THEN conjunct2, THEN conjunct2, THEN mp, OF h1]
  note t2 = get_publishing_date_scored [where E = example_date_env
      and script = "script_element ''yoast-schema-graph'' graph_text" and t = graph_text
      and kvs = "[(''@graph'',
                   JArr [JObj [(''@type'', JStr ''WebPage''),
                               (''datePublished'', JStr ''2021-03-04'')]])]"
      and items = "[JObj [(''@type'', JStr ''WebPage''), (''datePublished'', JStr ''2021-03-04'')]]"
      and iss = "[[(ordinal 2021 3 4, 10)]]",
      THEN conjunct2, THEN conjunct2, THEN conjunct2, THEN conjunct2, THEN conjunct2,
      THEN conjunct2, THEN conjunct1, THEN mp, OF h2, unfolded e2]
  note t3 = get_publishing_date_scored [where E = example_date_env
      and script = "script_element ''other'' jsonld_text" and t = jsonld_text
      and s = "''2021-03-04''" and d = "ordinal 2021 3 4",
      THEN conjunct2, THEN conjunct2, THEN conjunct2, THEN conjunct2, THEN conjunct2,
      THEN conjunct2, THEN conjunct2, THEN conjunct2, THEN conjunct2, THEN conjunct2,
      THEN conjunct1, THEN mp, OF h3]
  note t4 = get_publishing_date_scored [where E = example_date_env
      and tags = "[script_element ''yoast-schema-graph'' graph_text,
                   script_element ''other'' jsonld_text]"
      and mss = "[[(ordinal 2021 3 4, 10)], [(ordinal 2021 3 4, 9)]]",
      THEN conjunct2, THEN conjunct2, THEN conjunct2, THEN conjunct2, THEN conjunct2,
      THEN conjunct1, THEN mp, OF h4, unfolded e4]
  from t1 m t2 t3 t4 show ?thesis by (intro conjI)
qed

text \<open>
  The three sources at work on one document: the parsed graph gives the score 10, the
  pattern search 9, and the meta tag of 1990, older than 25 times 365 days, 5.
\<close>

lemma date_matches_jsonld_example:
  "date_matches example_date_env list_parser ''https://example.com/story'' jsonld_doc
     = Inr [(ordinal 2021 3 4, 10), (ordinal 2021 3 4, 9), (ordinal 1990 1 1, 5)]
   \<and> get_publishing_date example_date_env list_parser ''https://example.com/story'' jsonld_doc
     = Inr (Some (ordinal 2021 3 4))"
  by code_simp

text \<open>
  When a JSON-LD script makes \<open>get_publishing_date\<close> raise: a script outside the yoast
  class raises exactly when it has no text; C1 as proved above says nothing of the date
  in that case.
\<close>

lemma regex_dates_raises:
  "(\<exists>e. regex_dates E script = Inl e) = (elem_text script = None)"
  by (auto simp: regex_dates_def split: option.splits)

lemma scripts_dates_raises:
  "script_dates E script = Inl e \<Longrightarrow> script \<in> set tags \<Longrightarrow> \<exists>e'. scripts_dates E tags = Inl e'"
  by (induction tags) (auto simp: then_do_def split: sum.splits)

lemma get_publishing_date_raises:
  "scripts_dates E
     (getElementsByTag P doc (Some ''script'') (Some ''type'') (Some ''application/ld+json''))
   = Inl e \<Longrightarrow> get_publishing_date E P link doc = Inl e"
  by (simp add: get_publishing_date_def date_matches_def then_do_def)

section \<open>Properties of the article\<close>

lemma raw_fetches_append [simp]: "raw_fetches (xs @ ys) = raw_fetches xs + raw_fetches ys"
  by (simp add: raw_fetches_def)

lemma raw_fetches_single [simp]:
  "raw_fetches [Get2XX u] = 0" "raw_fetches [ReadFile u] = 0" "raw_fetches [GetRaw u] = 1"
  by (simp_all add: raw_fetches_def)

lemma parse_scheme_file_raw:
  "parse_scheme_file E p s = (r, a, reqs) \<Longrightarrow> raw_fetches reqs = raw_fetches (snd s)"
  by (auto simp: parse_scheme_file_def split: prod.splits sum.splits)

lemma parse_scheme_http_raw:
  "parse_scheme_http E u s = (r, a, reqs) \<Longrightarrow> raw_fetches reqs = raw_fetches (snd s)"
  by (auto simp: parse_scheme_http_def Let_def split: prod.splits sum.splits if_splits)

lemma first_fetch_raw:
  "first_fetch E U ih s = (r, s1) \<Longrightarrow> raw_fetches (snd s1) = raw_fetches (snd s)"
  by (cases s1)
     (auto simp: first_fetch_def Let_def split: option.splits if_splits
           dest: parse_scheme_file_raw parse_scheme_http_raw)

lemma follow_read_more_raw:
  "follow_read_more E h irm s = (h', a, reqs) \<Longrightarrow> raw_fetches reqs = raw_fetches (snd s)"
  by (auto simp: follow_read_more_def Let_def split: if_splits option.splits prod.splits
           dest: parse_scheme_http_raw)

lemma finish_download_raw:
  "raw_fetches (snd (finish_download E h t irm s)) = raw_fetches (snd s)"
  by (auto simp: finish_download_def split: prod.splits dest: follow_read_more_raw)

lemma download_raw_bound:
  "raw_fetches (snd (download E U ih t rc irm s)) \<le> raw_fetches (snd s) + nat (1 - rc)"
proof (induction E U ih t rc irm s rule: download.induct)
  case (1 E U input_html title_arg recursion_counter ignore_read_more s)
  obtain r s1 where ff: "first_fetch E U input_html s = (r, s1)"
    by (cases "first_fetch E U input_html s")
  from first_fetch_raw [OF ff] have s1: "raw_fetches (snd s1) = raw_fetches (snd s)" .
  show ?case
  proof (cases r)
    case None
    with ff s1 show ?thesis by (subst download.simps) simp
  next
    case (Some h)
    show ?thesis
    proof (cases "if follow_meta_refresh (config (fst s1)) then extract_meta_refresh E h else None")
      case None
      with ff Some s1 show ?thesis
        by (subst download.simps) (simp add: finish_download_raw)
    next
      case mr: (Some meta_refresh_url)
      show ?thesis
      proof (cases "meta_refresh_url \<noteq> [] \<and> recursion_counter < 1")
        case True
        from "1.IH" [OF ff [symmetric] Some mr True]
        have "raw_fetches (snd (download E U (Some (get_html E (snd s1) meta_refresh_url)) None
                   (recursion_counter + 1) False
                   (fst s1, snd s1 @ [GetRaw meta_refresh_url])))
              \<le> raw_fetches (snd s1) + 1 + nat (1 - (recursion_counter + 1))"
          by simp
        then have b: "raw_fetches (snd (download E U (Some (get_html E (snd s1) meta_refresh_url))
                   None (recursion_counter + 1) False
                   (fst s1, snd s1 @ [GetRaw meta_refresh_url])))
              \<le> raw_fetches (snd s) + nat (1 - recursion_counter)"
          using True s1 by arith
        have "download E U input_html title_arg recursion_counter ignore_read_more s
              = download E U (Some (get_html E (snd s1) meta_refresh_url)) None
                   (recursion_counter + 1) False
                   (fst s1, snd s1 @ [GetRaw meta_refresh_url])"
          using True ff Some mr by (subst download.simps) simp
        with b show ?thesis by simp
      next
        case False
        with ff Some mr s1 show ?thesis
          by (subst download.simps) (auto simp: finish_download_raw)
      qed
    qed
  qed
qed

lemma download_no_refresh:
  "1 \<le> rc \<Longrightarrow> raw_fetches (snd (download E U ih t rc irm s)) = raw_fetches (snd s)"
  by (subst download.simps)
     (auto simp: finish_download_raw split: prod.splits option.splits dest: first_fetch_raw)

text \<open>
  C2. \<open>download\<close> is a total function: the recursion ends, since the call for the
  target of a meta refresh is made only where the recursion counter is below 1 and
  passes the counter plus one. A download that starts at depth 0 fetches the target of
  a meta refresh at most once, however many pages of the chain hold a refresh of their
  own, and a call at depth 1 or more fetches none.
\<close>

theorem download_meta_refresh_once:
  "raw_fetches (snd (download E U ih t 0 irm s)) \<le> raw_fetches (snd s) + 1
   \<and> (1 \<le> rc \<longrightarrow> raw_fetches (snd (download E U ih t rc irm s)) = raw_fetches (snd s))"
proof
  from download_raw_bound [of E U ih t 0 irm s]
  show "raw_fetches (snd (download E U ih t 0 irm s)) \<le> raw_fetches (snd s) + 1"
    by simp
  show "1 \<le> rc \<longrightarrow> raw_fetches (snd (download E U ih t rc irm s)) = raw_fetches (snd s)"
    by (intro impI) (rule download_no_refresh)
qed

theorem download_meta_refresh_once_witness:
  "raw_fetches (snd (download refresh_env simple_url_lib None None 0 False
      (new_article example_config ''http://example.com/a'' [] [], []))) = 1
   \<and> raw_fetches (snd (download refresh_env simple_url_lib None None 1 False
      (new_article example_config ''http://example.com/a'' [] [], []))) = 0"
proof -
  have h: "(1::int) \<le> 1" by simp
  have e: "raw_fetches (snd (new_article example_config ''http://example.com/a'' [] [],
             [] :: request list)) = 0"
    by code_simp
  have a: "raw_fetches (snd (download refresh_env simple_url_lib None None 0 False
      (new_article example_config ''http://example.com/a'' [] [], []))) = 1"
    by code_simp
  note t = download_meta_refresh_once [of refresh_env simple_url_lib None None False
      "(new_article example_config ''http://example.com/a'' [] [], [])" 1,
      THEN conjunct2, THEN mp, OF h, unfolded e]
  from a t show ?thesis by (rule conjI)
qed

text \<open>
  C7. The page at \<open>http://example.com/a\<close> holds a meta refresh to
  \<open>http://example.com/b\<close>. \<open>download\<close> fetches the target once and stores its html,
  but the URL of the article stays \<open>http://example.com/a\<close>: the branch of the meta
  refresh never assigns \<open>self.url\<close>, where the claim has the final URL replaced too.
\<close>

theorem download_meta_refresh_keeps_url:
  "html (fst (download refresh_env simple_url_lib None None 0 False
      (new_article example_config ''http://example.com/a'' [] [], [])))
     = ''<meta http-equiv=refresh content=0;url=/c>''
   \<and> url (fst (download refresh_env simple_url_lib None None 0 False
      (new_article example_config ''http://example.com/a'' [] [], [])))
     = ''http://example.com/a''
   \<and> snd (download refresh_env simple_url_lib None None 0 False
      (new_article example_config ''http://example.com/a'' [] [], []))
     = [Get2XX ''http://example.com/a'', GetRaw ''http://example.com/b'']"
  by code_simp

lemma startswith_append: "startswith (p @ s) p"
  by (simp add: startswith_def)

lemma str_in_prefix: "str_in sub (sub @ post)"
proof (cases "sub @ post")
  case Nil
  then show ?thesis by simp
next
  case (Cons a l)
  have "startswith (sub @ post) sub" by (rule startswith_append)
  then show ?thesis unfolding Cons by simp
qed

lemma str_in_append: "str_in sub (pre @ sub @ post)"
  by (induction pre) (auto simp: str_in_prefix)

lemma failed_message_names_download:
  "str_in ''download()'' (''Article `download()` failed with '' @ x @ '' on URL '' @ y)"
proof -
  have "''Article `download()` failed with '' @ x @ '' on URL '' @ y
        = ''Article `'' @ ''download()'' @ (''` failed with '' @ x @ '' on URL '' @ y)"
    by simp
  then show ?thesis by (simp only: str_in_append)
qed

lemma parse_scheme_file_failed:
  "parse_scheme_file E p s = (None, s1) \<Longrightarrow>
   download_state (fst s1) = FAILED_RESPONSE \<and> download_exception_msg (fst s1) \<noteq> None"
  by (auto simp: parse_scheme_file_def split: prod.splits sum.splits)

lemma parse_scheme_http_failed:
  "parse_scheme_http E u s = (None, s1) \<Longrightarrow>
   download_state (fst s1) = FAILED_RESPONSE \<and> download_exception_msg (fst s1) \<noteq> None"
  by (auto simp: parse_scheme_http_def Let_def split: prod.splits sum.splits if_splits)

lemma first_fetch_failed:
  "first_fetch E U None s = (None, s1) \<Longrightarrow>
   download_state (fst s1) = FAILED_RESPONSE \<and> download_exception_msg (fst s1) \<noteq> None"
  by (auto simp: first_fetch_def Let_def split: if_splits
           dest: parse_scheme_file_failed parse_scheme_http_failed)

lemma download_failed:
  "first_fetch E U None s = (None, s1) \<Longrightarrow> download E U None t rc irm s = s1"
  by (subst download.simps) simp

lemma parse_scheme_file_inv:
  "parse_scheme_file E p s = (r, s1) \<Longrightarrow> success_has_html (fst s) \<Longrightarrow> success_has_html (fst s1)"
  by (auto simp: parse_scheme_file_def success_has_html_def split: prod.splits sum.splits)

lemma parse_scheme_http_inv:
  "parse_scheme_http E u s = (r, s1) \<Longrightarrow> success_has_html (fst s) \<Longrightarrow> success_has_html (fst s1)"
  by (auto simp: parse_scheme_http_def success_has_html_def Let_def
           split: prod.splits sum.splits if_splits)

lemma first_fetch_inv:
  "first_fetch E U ih s = (r, s1) \<Longrightarrow> success_has_html (fst s) \<Longrightarrow> success_has_html (fst s1)"
  by (auto simp: first_fetch_def Let_def split: option.splits if_splits
           dest: parse_scheme_file_inv parse_scheme_http_inv)

lemma follow_read_more_inv:
  "follow_read_more E h irm s = (h', a, reqs) \<Longrightarrow> success_has_html (fst s) \<Longrightarrow> success_has_html a"
  unfolding follow_read_more_def Let_def
  by (auto split: if_splits option.splits prod.splits dest!: parse_scheme_http_inv)
     (auto simp: success_has_html_def)

lemma set_html_inv: "success_has_html a \<Longrightarrow> success_has_html (set_html a h)"
  by (auto simp: set_html_def success_has_html_def)

lemma set_title_inv: "success_has_html a \<Longrightarrow> success_has_html (set_title a t)"
  by (auto simp: set_title_def success_has_html_def split: option.splits)

lemma finish_download_inv:
  "success_has_html (fst s) \<Longrightarrow> success_has_html (fst (finish_download E h t irm s))"
  by (auto simp: finish_download_def split: prod.splits
           intro!: set_title_inv set_html_inv dest: follow_read_more_inv)

lemma download_inv:
  "success_has_html (fst s) \<Longrightarrow> success_has_html (fst (download E U ih t rc irm s))"
proof (induction E U ih t rc irm s rule: download.induct)
  case (1 E U input_html title_arg recursion_counter ignore_read_more s)
  obtain r s1 where ff: "first_fetch E U input_html s = (r, s1)"
    by (cases "first_fetch E U input_html s")
  from first_fetch_inv [OF ff "1.prems"] have s1: "success_has_html (fst s1)" .
  show ?case
  proof (cases r)
    case None
    with ff s1 show ?thesis by (subst download.simps) simp
  next
    case (Some h)
    show ?thesis
    proof (cases "if follow_meta_refresh (config (fst s1)) then extract_meta_refresh E h else None")
      case None
      with ff Some s1 show ?thesis
        by (subst download.simps) (simp add: finish_download_inv)
    next
      case mr: (Some meta_refresh_url)
      show ?thesis
      proof (cases "meta_refresh_url \<noteq> [] \<and> recursion_counter < 1")
        case True
        from "1.IH" [OF ff [symmetric] Some mr True] s1
        have b: "success_has_html (fst (download E U (Some (get_html E (snd s1) meta_refresh_url))
                   None (recursion_counter + 1) False
                   (fst s1, snd s1 @ [GetRaw meta_refresh_url])))"
          by simp
        have "download E U input_html title_arg recursion_counter ignore_read_more s
              = download E U (Some (get_html E (snd s1) meta_refresh_url)) None
                   (recursion_counter + 1) False
                   (fst s1, snd s1 @ [GetRaw meta_refresh_url])"
          using True ff Some mr by (subst download.simps) simp
        with b show ?thesis by simp
      next
        case False
        with ff Some mr s1 show ?thesis
          by (subst download.simps) (auto simp: finish_download_inv)
      qed
    qed
  qed
qed

text \<open>
  C9. \<open>parse\<close> and \<open>nlp\<close> raise an \<open>ArticleException\<close> that names \<open>download()\<close> on an
  article that was never downloaded (the state a new article has) and on one whose
  download failed; the state of a failed download stays with the article, so every
  later call raises again. \<open>nlp\<close> on a downloaded article that is not parsed raises one
  that names \<open>parse()\<close>. A download whose first fetch fails ends in the failed state.
  From a new article on, the state \<open>SUCCESS\<close> is only reached together with html that
  is not empty, so \<open>parse\<close> raises wherever there is no html.
\<close>

theorem guards_raise:
  "(download_state a = NOT_STARTED \<longrightarrow>
      parse X a = Inl (ArticleException ''You must `download()` an article first!'')
      \<and> nlp X a = Inl (ArticleException ''You must `download()` an article first!''))
   \<and> (download_state a = FAILED_RESPONSE \<longrightarrow>
      parse X a = Inl (ArticleException
                         (''Article `download()` failed with ''
                          @ str_opt (download_exception_msg a) @ '' on URL '' @ url a))
      \<and> nlp X a = Inl (ArticleException
                         (''Article `download()` failed with ''
                          @ str_opt (download_exception_msg a) @ '' on URL '' @ url a)))
   \<and> str_in ''download()''
        (''Article `download()` failed with '' @ str_opt (download_exception_msg a)
         @ '' on URL '' @ url a)
   \<and> (download_state a = SUCCESS \<and> \<not> is_parsed a \<longrightarrow>
      nlp X a = Inl (ArticleException ''You must `parse()` an article first!''))
   \<and> download_state (new_article c u t0 r) = NOT_STARTED
   \<and> success_has_html (new_article c u t0 r)
   \<and> (first_fetch E U None s = (None, s1) \<longrightarrow>
        download E U None t rc irm s = s1 \<and> download_state (fst s1) = FAILED_RESPONSE)
   \<and> (success_has_html (fst s) \<longrightarrow> success_has_html (fst (download E U ih t rc irm s)))
   \<and> (success_has_html a \<and> html a = [] \<longrightarrow> (\<exists>msg. parse X a = Inl (ArticleException msg)))"
proof (intro conjI impI)
  assume "download_state a = NOT_STARTED"
  then show "parse X a = Inl (ArticleException ''You must `download()` an article first!'')"
    and "nlp X a = Inl (ArticleException ''You must `download()` an article first!'')"
    by (simp_all add: parse_def nlp_def then_do_def throw_if_not_downloaded_verbose_def)
next
  assume "download_state a = FAILED_RESPONSE"
  then show "parse X a = Inl (ArticleException
                         (''Article `download()` failed with ''
                          @ str_opt (download_exception_msg a) @ '' on URL '' @ url a))"
    and "nlp X a = Inl (ArticleException
                         (''Article `download()` failed with ''
                          @ str_opt (download_exception_msg a) @ '' on URL '' @ url a))"
    by (simp_all add: parse_def nlp_def then_do_def throw_if_not_downloaded_verbose_def)
next
  show "str_in ''download()''
        (''Article `download()` failed with '' @ str_opt (download_exception_msg a)
         @ '' on URL '' @ url a)"
    by (rule failed_message_names_download)
next
  assume "download_state a = SUCCESS \<and> \<not> is_parsed a"
  then show "nlp X a = Inl (ArticleException ''You must `parse()` an article first!'')"
    by (simp add: nlp_def then_do_def throw_if_not_downloaded_verbose_def
                  throw_if_not_parsed_verbose_def)
next
  show "download_state (new_article c u t0 r) = NOT_STARTED"
    by (simp add: new_article_def)
  show "success_has_html (new_article c u t0 r)"
    by (simp add: new_article_def success_has_html_def)
next
  assume a: "first_fetch E U None s = (None, s1)"
  then show "download E U None t rc irm s = s1" by (rule download_failed)
  from first_fetch_failed [OF a] show "download_state (fst s1) = FAILED_RESPONSE" by simp
next
  assume "success_has_html (fst s)"
  then show "success_has_html (fst (download E U ih t rc irm s))" by (rule download_inv)
next
  assume "success_has_html a \<and> html a = []"
  then have "download_state a \<noteq> SUCCESS" by (auto simp: success_has_html_def)
  then show "\<exists>msg. parse X a = Inl (ArticleException msg)"
    by (cases "download_state a")
       (simp_all add: parse_def then_do_def throw_if_not_downloaded_verbose_def)
qed

theorem guards_raise_witness:
  "parse example_pipeline (new_article example_config ''http://example.com/a'' [] [])
     = Inl (ArticleException ''You must `download()` an article first!'')
   \<and> parse example_pipeline
        (fst (download failing_env simple_url_lib None None 0 False
                (new_article example_config ''http://example.com/a'' [] [], [])))
     = Inl (ArticleException
         ''Article `download()` failed with Status code 404 for url None on URL http://example.com/a'')
   \<and> nlp example_pipeline
        (fst (download refresh_env simple_url_lib None None 0 False
                (new_article example_config ''http://example.com/a'' [] [], [])))
     = Inl (ArticleException ''You must `parse()` an article first!'')"
proof -
  have h1: "download_state (new_article example_config ''http://example.com/a'' [] [])
            = NOT_STARTED"
    by code_simp
  have h2: "download_state
              (fst (download failing_env simple_url_lib None None 0 False
                      (new_article example_config ''http://example.com/a'' [] [], [])))
            = FAILED_RESPONSE"
    by code_simp
  have e2: "''Article `download()` failed with ''
            @ str_opt (download_exception_msg
                (fst (download failing_env simple_url_lib None None 0 False
                        (new_article example_config ''http://example.com/a'' [] [], []))))
            @ '' on URL ''
            @ url (fst (download failing_env simple_url_lib None None 0 False
                          (new_article example_config ''http://example.com/a'' [] [], [])))
            = ''Article `download()` failed with Status code 404 for url None on URL http://example.com/a''"
    by code_simp
  have h3: "download_state
              (fst (download refresh_env simple_url_lib None None 0 False
                      (new_article example_config ''http://example.com/a'' [] [], [])))
            = SUCCESS
          \<and> \<not> is_parsed
              (fst (download refresh_env simple_url_lib None None 0 False
                      (new_article example_config ''http://example.com/a'' [] [], [])))"
    by code_simp
  note t1 = guards_raise [of "new_article example_config ''http://example.com/a'' [] []"
      example_pipeline, THEN conjunct1, THEN mp, OF h1, THEN conjunct1]
  note t2 = guards_raise [of "fst (download failing_env simple_url_lib None None 0 False
                (new_article example_config ''http://example.com/a'' [] [], []))"
      example_pipeline, THEN conjunct2, THEN conjunct1, THEN mp, OF h2, THEN conjunct1,
      unfolded e2]
  note t3 = guards_raise [of "fst (download refresh_env simple_url_lib None None 0 False
                (new_article example_config ''http://example.com/a'' [] [], []))"
      example_pipeline, THEN conjunct2, THEN conjunct2, THEN conjunct2, THEN conjunct1,
      THEN mp, OF h3]
  from t1 t2 t3 show ?thesis by (intro conjI)
qed

end
